theory Spec2Isabelle
  imports Complex_Main "HOL-Library.Sublist"
begin

section \<open>Strings\<close>

text \<open>
  A Python \<open>str\<close> is modelled as a \<open>string\<close> (a list of \<open>char\<close>), each \<open>char\<close>
  read as the Unicode code point of the same number: the model covers the texts of
  U+0000 to U+00FF. The classes and conversions the program relies on (the
  regular-expression classes \<open>\s\<close>, \<open>\d\<close> and \<open>\w\<close>, \<open>str.strip\<close>, \<open>str.upper\<close>,
  \<open>str.lower\<close>, \<open>str.isdigit\<close>, \<open>int\<close>) are written out below as Python defines
  them on these code points.
\<close>

text \<open>\<open>\d\<close> and the characters \<open>int\<close> accepts: the decimal digits.\<close>

definition is_digit :: "char \<Rightarrow> bool" where
  "is_digit c = (c \<in> set ''0123456789'')"

text \<open>
  \<open>\s\<close>, and what \<open>str.strip\<close> removes: the characters for which \<open>str.isspace\<close>
  holds (U+0009 to U+000D, U+001C to U+001F, the space, U+0085 and the no-break space
  U+00A0).
\<close>

definition is_space :: "char \<Rightarrow> bool" where
  "is_space c = (c \<in> set [CHR 0x09, CHR 0x0A, CHR 0x0B, CHR 0x0C, CHR 0x0D,
                            CHR 0x1C, CHR 0x1D, CHR 0x1E, CHR 0x1F, CHR '' '',
                            CHR 0x85, CHR 0xA0])"

text \<open>
  The letters that have a case: the capitals \<open>A\<close> to \<open>Z\<close>, U+00C0 to U+00D6 and U+00D8
  to U+00DE, and at the same positions the small letters \<open>a\<close> to \<open>z\<close>, U+00E0 to U+00F6
  and U+00F8 to U+00FE.
\<close>

definition mayusculas :: string where
  "mayusculas = ''ABCDEFGHIJKLMNOPQRSTUVWXYZ'' @
    [CHR 0xC0, CHR 0xC1, CHR 0xC2, CHR 0xC3, CHR 0xC4, CHR 0xC5, CHR 0xC6, CHR 0xC7,
     CHR 0xC8, CHR 0xC9, CHR 0xCA, CHR 0xCB, CHR 0xCC, CHR 0xCD, CHR 0xCE, CHR 0xCF,
     CHR 0xD0, CHR 0xD1, CHR 0xD2, CHR 0xD3, CHR 0xD4, CHR 0xD5, CHR 0xD6, CHR 0xD8,
     CHR 0xD9, CHR 0xDA, CHR 0xDB, CHR 0xDC, CHR 0xDD, CHR 0xDE]"

definition minusculas :: string where
  "minusculas = ''abcdefghijklmnopqrstuvwxyz'' @
    [CHR 0xE0, CHR 0xE1, CHR 0xE2, CHR 0xE3, CHR 0xE4, CHR 0xE5, CHR 0xE6, CHR 0xE7,
     CHR 0xE8, CHR 0xE9, CHR 0xEA, CHR 0xEB, CHR 0xEC, CHR 0xED, CHR 0xEE, CHR 0xEF,
     CHR 0xF0, CHR 0xF1, CHR 0xF2, CHR 0xF3, CHR 0xF4, CHR 0xF5, CHR 0xF6, CHR 0xF8,
     CHR 0xF9, CHR 0xFA, CHR 0xFB, CHR 0xFC, CHR 0xFD, CHR 0xFE]"

text \<open>\<open>str.lower\<close>, character by character.\<close>

definition lower_char :: "char \<Rightarrow> char" where
  "lower_char c = (case map_of (zip mayusculas minusculas) c of Some l \<Rightarrow> l | None \<Rightarrow> c)"

definition lower :: "string \<Rightarrow> string" where
  "lower s = map lower_char s"

text \<open>
  \<open>str.upper\<close>, character by character: the sharp s (U+00DF) becomes \<open>SS\<close>. Two small
  letters have their capital outside U+0000 to U+00FF: the micro sign U+00B5 (capital
  U+039C) and U+00FF (capital U+0178). They are left as they are. Python's result is the
  model's with these two characters renamed: no other character has one of these four as
  its capital, and none of the four is a digit, \<open>K\<close>, a separator or a newline, so every
  comparison and every pattern match made on an uppercased text has the same outcome.
\<close>

definition upper_char :: "char \<Rightarrow> string" where
  "upper_char c =
     (if c = CHR 0xDF then ''SS''
      else case map_of (zip minusculas mayusculas) c of Some u \<Rightarrow> [u] | None \<Rightarrow> [c])"

definition upper :: "string \<Rightarrow> string" where
  "upper s = concat (map upper_char s)"

text \<open>\<open>s.strip()\<close>: leading and trailing whitespace removed.\<close>

definition strip :: "string \<Rightarrow> string" where
  "strip s = rev (dropWhile is_space (rev (dropWhile is_space s)))"

text \<open>\<open>int(d)\<close> on a one-character string: \<open>ValueError\<close> (here \<open>None\<close>) unless it is a digit.\<close>

definition int_of_char :: "char \<Rightarrow> int option" where
  "int_of_char c = map_of (zip ''0123456789'' [0, 1, 2, 3, 4, 5, 6, 7, 8, 9]) c"

text \<open>The value of a digit character (\<open>0\<close> for any other character).\<close>

definition digit_val :: "char \<Rightarrow> int" where
  "digit_val c = (case int_of_char c of Some v \<Rightarrow> v | None \<Rightarrow> 0)"

text \<open>
  \<open>s.isdigit()\<close>: not empty, and every character a decimal digit or one of the
  superscript digits U+00B2, U+00B3 and U+00B9.
\<close>

definition isdigit_char :: "char \<Rightarrow> bool" where
  "isdigit_char c = (is_digit c \<or> c \<in> set [CHR 0xB2, CHR 0xB3, CHR 0xB9])"

definition isdigit :: "string \<Rightarrow> bool" where
  "isdigit s = (s \<noteq> [] \<and> list_all isdigit_char s)"

text \<open>
  \<open>int(s)\<close> for a string that passed \<open>isdigit\<close>: its value when every character is a
  decimal digit, and \<open>ValueError\<close> (here \<open>None\<close>) when it holds a superscript digit.
\<close>

definition int_of_str :: "string \<Rightarrow> int option" where
  "int_of_str s =
     (if s \<noteq> [] \<and> list_all is_digit s
      then Some (foldl (\<lambda>acc c. 10 * acc + digit_val c) 0 s) else None)"

text \<open>\<open>sub in s\<close>: \<open>sub\<close> occurs in \<open>s\<close> as a contiguous run, starting at some index.\<close>

definition py_in :: "string \<Rightarrow> string \<Rightarrow> bool" where
  "py_in sub s = list_ex (\<lambda>i. take (length sub) (drop i s) = sub) [0..<Suc (length s)]"

text \<open>\<open>str(n)\<close> for an integer: its decimal digits, with a sign when negative.\<close>

definition digit_char :: "nat \<Rightarrow> char" where
  "digit_char n = ''0123456789'' ! (n mod 10)"

fun str_nat :: "nat \<Rightarrow> string" where
  "str_nat n = (if n < 10 then [digit_char n] else str_nat (n div 10) @ [digit_char n])"

definition str_int :: "int \<Rightarrow> string" where
  "str_int i = (if i < 0 then CHR ''-'' # str_nat (nat (- i)) else str_nat (nat i))"

section \<open>The national-ID validator\<close>

text \<open>
  \<open>clean_rut\<close>: \<^verbatim>\<open>re.sub(r"[.\-\s]", "", rut).upper()\<close>. The branch for a value that
  is not a \<open>str\<close> is excluded by the type.
\<close>

definition is_separator :: "char \<Rightarrow> bool" where
  "is_separator c = (c = CHR ''.'' \<or> c = CHR ''-'' \<or> is_space c)"

definition clean_rut :: "string \<Rightarrow> string" where
  "clean_rut rut = upper (filter (\<lambda>c. \<not> is_separator c) rut)"

text \<open>
  \<open>format_rut\<close>: the cleaned value with a hyphen before its last character; a value whose
  cleaned form has fewer than two characters is returned as it was given.
\<close>

definition format_rut :: "string \<Rightarrow> string" where
  "format_rut rut =
     (let rn = clean_rut rut in
      if length rn < 2 then rut else butlast rn @ ''-'' @ [last rn])"

text \<open>
  \<^verbatim>\<open>re.match(r"^\d{7,8}[0-9K]$", s)\<close>. In Python \<open>$\<close> matches at the end of the string
  and also just before a newline that ends the string.
\<close>

definition rut_shape :: "string \<Rightarrow> bool" where
  "rut_shape s =
     ((length s = 8 \<or> length s = 9) \<and> list_all is_digit (butlast s)
      \<and> (is_digit (last s) \<or> last s = CHR ''K''))"

definition match_rut :: "string \<Rightarrow> bool" where
  "match_rut s = (rut_shape s \<or> (s \<noteq> [] \<and> last s = CHR 0x0A \<and> rut_shape (butlast s)))"

definition factors :: "int list" where
  "factors = [2, 3, 4, 5, 6, 7]"

text \<open>
  The \<open>for d in reversed_digits\<close> loop, with its two variables \<open>total\<close> (here \<open>tot\<close>) and
  \<open>factor_index\<close>; \<open>int(d)\<close> may raise, which ends the loop with \<open>None\<close>.
\<close>

fun suma_loop :: "string \<Rightarrow> int \<Rightarrow> nat \<Rightarrow> int option" where
  "suma_loop [] tot factor_index = Some tot"
| "suma_loop (d # ds) tot factor_index =
     (case int_of_char d of
        None \<Rightarrow> None
      | Some v \<Rightarrow>
          suma_loop ds (tot + v * factors ! factor_index)
            ((factor_index + 1) mod length factors))"

definition dv_calculado :: "int \<Rightarrow> string" where
  "dv_calculado m = (if m = 10 then ''K'' else if m = 11 then ''0'' else str_int m)"

definition validar_rut :: "string \<Rightarrow> bool" where
  "validar_rut rut =
     (let rut_clean = clean_rut rut in
      if \<not> match_rut rut_clean then False
      else
        let num = butlast rut_clean; dv = last rut_clean in
        case suma_loop (rev num) 0 0 of
          None \<Rightarrow> False
        | Some tot \<Rightarrow> dv_calculado (11 - tot mod 11) = [dv])"

subsection \<open>The check character as the specification words it\<close>




section \<open>Tables, errors and messages\<close>

text \<open>
  The data frame is read with \<open>dtype=str\<close> and \<open>fillna("")\<close>, and every later write
  stores a string: a cell is a string, a row gives the cell of each column name, and a
  table is its ordered column names and its ordered rows. The index of a row is its
  position (the file is read with the default index, and insertion and deletion renumber
  with \<open>ignore_index=True\<close> and \<open>reset_index(drop=True)\<close>). A row is only read at the
  names in \<open>columns\<close>.
\<close>

type_synonym row = "string \<Rightarrow> string"

record table =
  columns :: "string list"
  rows :: "row list"

datatype py_error = ZeroDivisionError | EOFError | ValueError

text \<open>The calls of \<open>mostrar_mensaje\<close>: which message, and its \<open>tipo\<close>.\<close>

datatype tipo = Info | Exito | Advertencia | Error | Pregunta

datatype texto =
    LockTimeout | NoLock | Guardado | NoGuardado
  | RutInvalido | EmailInvalido | TelefonoInvalido
  | RutSeMantiene | EmailSeMantiene | TelefonoSeMantiene
  | NoEncontrado | MultiplesCoincidencias | SinCampoRut
  | RegistroActual | Actualizado | RegistroAEliminar | Eliminado | EliminacionCancelada
  | IngreseDatos | Agregado | SinRegistros

type_synonym mensaje = "texto \<times> tipo"

text \<open>
  The state of a \<open>GestorDocentes\<close> that the operations below read: the column names and
  the three role bindings (\<open>None\<close> when a role is not bound).
\<close>

record gestor =
  columnas :: "string list"
  col_rut :: "string option"
  col_email :: "string option"
  col_tel :: "string option"

text \<open>The truth value Python gives a binding in \<open>if self.col_rut and ...\<close>.\<close>

definition truthy :: "string option \<Rightarrow> bool" where
  "truthy b = (case b of None \<Rightarrow> False | Some c \<Rightarrow> c \<noteq> [])"

section \<open>The email and phone validators\<close>

text \<open>
  \<^verbatim>\<open>re.match(r'^[\w\.-]+@[\w\.-]+\.\w+$', email)\<close>. \<open>\w\<close> is the underscore and the
  characters for which \<open>str.isalnum\<close> holds: the digits, the letters (with or without a
  case: U+00AA, U+00B5, U+00BA, U+00DF and U+00FF have no capital here), the superscript
  digits and the fractions U+00BC to U+00BE. The character \<open>@\<close> is in neither
  class, so the local part is what precedes the only \<open>@\<close>; the last segment is the
  longest run of word characters that ends the string, it follows a dot, and what stands
  between \<open>@\<close> and that dot is not empty.
\<close>

definition is_word :: "char \<Rightarrow> bool" where
  "is_word c =
     (c \<in> set ''abcdefghijklmnopqrstuvwxyzABCDEFGHIJKLMNOPQRSTUVWXYZ0123456789_''
      \<or> c \<in> set mayusculas \<or> c \<in> set minusculas
      \<or> c \<in> set [CHR 0xAA, CHR 0xB2, CHR 0xB3, CHR 0xB5, CHR 0xB9, CHR 0xBA, CHR 0xBC,
           CHR 0xBD, CHR 0xBE, CHR 0xDF, CHR 0xFF])"

definition is_word_dot_hyphen :: "char \<Rightarrow> bool" where
  "is_word_dot_hyphen c = (is_word c \<or> c = CHR ''.'' \<or> c = CHR ''-'')"

definition email_shape :: "string \<Rightarrow> bool" where
  "email_shape s =
     (let loc = takeWhile is_word_dot_hyphen s;
          rest = dropWhile is_word_dot_hyphen s
      in loc \<noteq> [] \<and> rest \<noteq> [] \<and> hd rest = CHR ''@'' \<and>
         (let dom = tl rest;
              tld = rev (takeWhile is_word (rev dom));
              pre = rev (dropWhile is_word (rev dom))
          in tld \<noteq> [] \<and> pre \<noteq> [] \<and> last pre = CHR ''.'' \<and> butlast pre \<noteq> []
             \<and> list_all is_word_dot_hyphen (butlast pre)))"

definition validar_email :: "string \<Rightarrow> bool" where
  "validar_email email =
     (email_shape email
      \<or> (email \<noteq> [] \<and> last email = CHR 0x0A \<and> email_shape (butlast email)))"

text \<open>\<^verbatim>\<open>t = re.sub(r"[ \-()]+", "", telefono); t.isdigit() and 7 <= len(t) <= 15\<close>.\<close>

definition validar_telefono :: "string \<Rightarrow> bool" where
  "validar_telefono telefono =
     (let t = filter (\<lambda>c. c \<notin> set '' -()'') telefono
      in isdigit t \<and> 7 \<le> length t \<and> length t \<le> 15)"

section \<open>Search\<close>

text \<open>
  \<open>buscar\<close>. The transliteration function \<open>unidecode\<close> comes from an optional library:
  it is a parameter, \<open>None\<close> when the import failed. The mask is computed row by row
  (\<open>df.apply(..., axis=1)\<close>) and the rows whose mask entry is true are kept
  (\<open>df[mask]\<close>). On a table without rows pandas does not compute a mask of truth
  values: \<open>apply\<close> returns an empty series of floats, which \<open>df[...]\<close> reads as a
  list of column labels, an empty one, so the result has neither rows nor columns.
\<close>

definition buscar :: "(string \<Rightarrow> string) option \<Rightarrow> table \<Rightarrow> string \<Rightarrow> table" where
  "buscar unidecode df criterio =
     (let crit = (case unidecode of
                    Some u \<Rightarrow> u (lower (strip criterio))
                  | None \<Rightarrow> lower (strip criterio));
          match_val = (\<lambda>val. case unidecode of
                    Some u \<Rightarrow> py_in crit (u (lower val))
                  | None \<Rightarrow> py_in crit (lower val));
          mask = map (\<lambda>row. list_ex (\<lambda>c. match_val (row c)) (columns df)) (rows df)
      in if rows df = [] then df\<lparr>columns := []\<rparr>
         else df\<lparr>rows := map fst (filter snd (zip (rows df) mask))\<rparr>)"

section \<open>Pagination\<close>

text \<open>
  \<open>df.iloc[start:end]\<close>: a negative bound counts from the end, and bounds are clipped to
  the table.
\<close>

definition py_slice :: "'r list \<Rightarrow> int \<Rightarrow> int \<Rightarrow> 'r list" where
  "py_slice xs a b =
     (let n = int (length xs);
          lo = (if a < 0 then max 0 (a + n) else min a n);
          hi = (if b < 0 then max 0 (b + n) else min b n)
      in take (nat (hi - lo)) (drop (nat lo) xs))"

text \<open>
  What \<open>paginar\<close> prints: a page (the rows of \<open>subset\<close>, then the numbers of the line
  \<open>Pagina i+1/pages (start+1-min(end,total) de total)\<close>), or the warning that there is
  nothing to show. The function only reads the rows' positions, so the rows are of any
  type.
\<close>

datatype 'r salida = Pagina "'r list" int int int int int | Aviso mensaje

text \<open>
  The body of \<open>for i in range(pages)\<close>, over the indices still to come. \<open>range(pages)\<close>
  is evaluated once, before the loop: the assignments \<open>pages = ...\<close> and \<open>i = -1\<close> of
  the resize branch change the variables, but the \<open>for\<close> statement takes the next
  index of that first range all the same, so the new \<open>pages\<close> only shows in the printed
  line and in the test \<open>i < pages - 1\<close>, and \<open>i = -1\<close> is overwritten at once. The
  answers typed at the prompts are the list \<open>ins\<close>; \<open>input\<close> raises \<open>EOFError\<close> when
  none is left, and \<open>int(nuevo_size)\<close> raises \<open>ValueError\<close> on a text that
  \<open>isdigit\<close> accepts and that holds a superscript digit. The result is the error raised
  (if any), what was printed, and the answers not read.
\<close>

fun paginar_loop ::
  "'r list \<Rightarrow> int list \<Rightarrow> int \<Rightarrow> int \<Rightarrow> string list \<Rightarrow> 'r salida list
     \<Rightarrow> py_error option \<times> 'r salida list \<times> string list" where
  "paginar_loop df [] page_size pages ins out = (None, out, ins)"
| "paginar_loop df (i # rest) page_size pages ins out =
     (let total = int (length df);
          start = i * page_size;
          end = start + page_size;
          subset = py_slice df start end;
          out1 = out @ [Pagina subset (i + 1) pages (start + 1) (min end total) total]
      in if i < pages - 1 then
           (case ins of
              [] \<Rightarrow> (Some EOFError, out1, [])
            | r # ins1 \<Rightarrow>
                let cont = lower (strip r) in
                if cont = ''q'' then (None, out1, ins1)
                else if cont = ''s'' then
                  (case ins1 of
                     [] \<Rightarrow> (Some EOFError, out1, [])
                   | r2 # ins2 \<Rightarrow>
                       let nuevo_size = strip r2 in
                       if isdigit nuevo_size then
                         (case int_of_str nuevo_size of
                            None \<Rightarrow> (Some ValueError, out1, ins2)
                          | Some n \<Rightarrow>
                              if n > 0 then
                                paginar_loop df rest n ((total + n - 1) div n) ins2 out1
                              else paginar_loop df rest page_size pages ins2 out1)
                       else paginar_loop df rest page_size pages ins2 out1)
                else paginar_loop df rest page_size pages ins1 out1)
         else paginar_loop df rest page_size pages ins out1)"

definition paginar ::
  "'r list \<Rightarrow> int \<Rightarrow> string list \<Rightarrow> py_error option \<times> 'r salida list \<times> string list" where
  "paginar df page_size ins =
     (let total = int (length df) in
      if total = 0 then (None, [Aviso (SinRegistros, Advertencia)], ins)
      else if page_size = 0 then (Some ZeroDivisionError, [], ins)
      else
        let pages = (total + page_size - 1) div page_size in
        paginar_loop df (map int [0..<nat pages]) page_size pages ins [])"

section \<open>Record store: looking a key up, update, insert, delete\<close>

text \<open>
  The key lookup of the update and delete branches of \<open>run_interactivo\<close>:
  \<^verbatim>\<open>clave_norm = self.clean_rut(clave)\<close>,
  \<^verbatim>\<open>ser_norm = df[self.col_rut].fillna("").astype(str).apply(self.clean_rut)\<close>,
  \<^verbatim>\<open>matches = df[ser_norm == clave_norm]\<close>, \<^verbatim>\<open>idx_list = matches.index.tolist()\<close>:
  the positions of the rows whose cleaned key is the cleaned query, in table order.
\<close>

definition coincidencias :: "string \<Rightarrow> row list \<Rightarrow> string \<Rightarrow> nat list" where
  "coincidencias col df clave =
     (let clave_norm = clean_rut clave;
          ser_norm = map (\<lambda>r. clean_rut (r col)) df
      in filter (\<lambda>i. ser_norm ! i = clave_norm) [0..<length df])"


text \<open>The delete branch does the same and prints no warning when several rows match.\<close>

definition ubicar_eliminar :: "string \<Rightarrow> row list \<Rightarrow> string \<Rightarrow> nat option \<times> mensaje list" where
  "ubicar_eliminar col df clave =
     (let idx_list = coincidencias col df clave in
      if idx_list = [] then (None, [(NoEncontrado, Error)])
      else (Some (hd idx_list), []))"

text \<open>
  \<open>df.at[idx, col] = v\<close>. The index always comes from the lookup above, so it is a
  position of the table.
\<close>

definition poner :: "row list \<Rightarrow> nat \<Rightarrow> string \<Rightarrow> string \<Rightarrow> row list" where
  "poner df idx col v = df[idx := (df ! idx)(col := v)]"

text \<open>
  The body of \<open>for col in self.columnas\<close> in the update branch, for the answer typed at
  the prompt of column \<open>col\<close>. The state is the table and the messages shown so far.
\<close>

definition actualizar_celda ::
  "gestor \<Rightarrow> nat \<Rightarrow> string \<Rightarrow> string \<Rightarrow> row list \<times> mensaje list \<Rightarrow> row list \<times> mensaje list" where
  "actualizar_celda g idx col respuesta st =
     (let df = fst st; ms = snd st; nuevo_valor = strip respuesta in
      if nuevo_valor \<noteq> [] then
        if truthy (col_rut g) \<and> Some col = col_rut g then
          if \<not> validar_rut nuevo_valor then (df, ms @ [(RutSeMantiene, Advertencia)])
          else (poner df idx col (format_rut nuevo_valor), ms)
        else if truthy (col_email g) \<and> Some col = col_email g then
          if \<not> validar_email nuevo_valor then (df, ms @ [(EmailSeMantiene, Advertencia)])
          else (poner df idx col nuevo_valor, ms)
        else if truthy (col_tel g) \<and> Some col = col_tel g then
          if \<not> validar_telefono nuevo_valor then (df, ms @ [(TelefonoSeMantiene, Advertencia)])
          else (poner df idx col nuevo_valor, ms)
        else (poner df idx col nuevo_valor, ms)
      else (df, ms))"

text \<open>The loop over the columns; each iteration reads one answer.\<close>

fun actualizar_cols ::
  "gestor \<Rightarrow> nat \<Rightarrow> string list \<Rightarrow> string list \<Rightarrow> row list \<times> mensaje list
     \<Rightarrow> py_error option \<times> (row list \<times> mensaje list) \<times> string list" where
  "actualizar_cols g idx [] ins st = (None, st, ins)"
| "actualizar_cols g idx (col # cols) [] st = (Some EOFError, st, [])"
| "actualizar_cols g idx (col # cols) (r # ins) st =
     actualizar_cols g idx cols ins (actualizar_celda g idx col r st)"


text \<open>
  Menu option 5: the delete branch. \<open>df.drop(idx).reset_index(drop=True)\<close> removes the
  row and renumbers the rows after it.
\<close>

definition eliminar ::
  "gestor \<Rightarrow> row list \<Rightarrow> string list
     \<Rightarrow> py_error option \<times> (row list \<times> mensaje list) \<times> string list" where
  "eliminar g df ins =
     (case col_rut g of
        None \<Rightarrow> (None, (df, [(SinCampoRut, Error)]), ins)
      | Some c \<Rightarrow>
          if c = [] then (None, (df, [(SinCampoRut, Error)]), ins)
          else
            (case ins of
               [] \<Rightarrow> (Some EOFError, (df, []), [])
             | r # ins1 \<Rightarrow>
                 (case ubicar_eliminar c df (strip r) of
                    (None, ms) \<Rightarrow> (None, (df, ms), ins1)
                  | (Some idx, ms) \<Rightarrow>
                      (case ins1 of
                         [] \<Rightarrow> (Some EOFError, (df, ms @ [(RegistroAEliminar, Advertencia)]), [])
                       | r2 # ins2 \<Rightarrow>
                           if lower (strip r2) = ''s'' then
                             (None, (take idx df @ drop (Suc idx) df,
                                     ms @ [(RegistroAEliminar, Advertencia), (Eliminado, Exito)]),
                              ins2)
                           else
                             (None, (df, ms @ [(RegistroAEliminar, Advertencia),
                                               (EliminacionCancelada, Info)]), ins2)))))"




text \<open>
  For stating the update policy: the role whose branch of the \<open>if ... elif ...\<close> chain
  handles a column (the first, in the order ID, email, phone, that is bound to it), the
  validator of a role, and the value the update stores for a role.
\<close>

datatype rol = RolID | RolEmail | RolTelefono

definition rol_de :: "gestor \<Rightarrow> string \<Rightarrow> rol option" where
  "rol_de g col =
     (if truthy (col_rut g) \<and> Some col = col_rut g then Some RolID
      else if truthy (col_email g) \<and> Some col = col_email g then Some RolEmail
      else if truthy (col_tel g) \<and> Some col = col_tel g then Some RolTelefono
      else None)"

primrec valida :: "rol \<Rightarrow> string \<Rightarrow> bool" where
  "valida RolID v = validar_rut v"
| "valida RolEmail v = validar_email v"
| "valida RolTelefono v = validar_telefono v"

primrec se_mantiene :: "rol \<Rightarrow> texto" where
  "se_mantiene RolID = RutSeMantiene"
| "se_mantiene RolEmail = EmailSeMantiene"
| "se_mantiene RolTelefono = TelefonoSeMantiene"

definition valor_guardado :: "rol option \<Rightarrow> string \<Rightarrow> string" where
  "valor_guardado ro v = (if ro = Some RolID then format_rut v else v)"

section \<open>Files, the lock and the save\<close>

text \<open>
  The part of the outside world that \<open>acquire_lock\<close>, \<open>release_lock\<close>, \<open>backup\<close> and
  \<open>guardar\<close> read and change: the backing file, the sentinel file, the copies in the
  backup directory, the seconds of sleep asked of \<open>time.sleep\<close>, the log file and the
  messages shown.

  A file that exists holds a table, or what a write that raised after opening the file
  left in it (nothing, or a part of what was to be written). A sentinel that exists was
  there before \<open>acquire_lock\<close> was called, or was written by \<open>acquire_lock\<close>, or was
  created by a write of \<open>acquire_lock\<close> that then raised. \<open>None\<close> is a file that does
  not exist.
\<close>

datatype nivel = LogInfo | LogWarning | LogError

datatype evento =
    TimeoutLock | LockNoCreado | LockNoEliminado
  | BackupCreado | BackupFallido | ArchivoGuardado | ErrorAlGuardar

datatype contenido = Tabla table | Parcial

datatype centinela = Ajeno | Propio | Incompleto

record mundo =
  archivo :: "contenido option"
  lock_file :: "centinela option"
  respaldos :: "contenido list"
  dormido :: nat
  bitacora :: "(nivel \<times> evento) list"
  pantalla :: "mensaje list"

text \<open>
  A write that opens a file and then fills it (\<open>Path.write_text\<close>, \<open>df.to_excel\<close>)
  succeeds, or raises before the file is opened (the file is as it was: absent if it was
  absent), or raises after the file has been opened for writing (the file exists and its
  previous contents are gone).
\<close>

datatype escritura = Escrito | NoAbierto | Truncado

text \<open>
  What the surroundings decide. The loop of \<open>acquire_lock\<close> tests the sentinel again and
  again; the tests are numbered from \<open>0\<close>. \<open>liberado_en\<close> is the number of the first
  test that finds the sentinel deleted by its holder (\<open>None\<close>: it is never deleted), and
  \<open>transcurrido k\<close> is the value of \<open>time.time() - start\<close> read at test \<open>k\<close>, a number
  of seconds that need not be whole. The other fields say how each file operation of this
  program ends (\<open>lock_file.write_text\<close>, \<open>shutil.copy2\<close>, \<open>df.to_excel\<close>,
  \<open>lock_file.unlink\<close>); each of them is inside a \<open>try\<close> of the source whose
  \<open>except Exception\<close> branch is modelled below.
\<close>

record entorno =
  liberado_en :: "nat option"
  transcurrido :: "nat \<Rightarrow> real"
  write_text :: escritura
  copia_ok :: bool
  to_excel :: escritura
  unlink_ok :: bool

text \<open>
  \<open>self.lock_file.exists()\<close> at test \<open>k\<close>: the sentinel was there when \<open>acquire_lock\<close>
  was called and its holder has not deleted it yet.
\<close>

definition retenido :: "entorno \<Rightarrow> nat \<Rightarrow> bool" where
  "retenido e k = (case liberado_en e of None \<Rightarrow> True | Some d \<Rightarrow> k < d)"

definition presente :: "entorno \<Rightarrow> mundo \<Rightarrow> nat \<Rightarrow> bool" where
  "presente e w k = (lock_file w \<noteq> None \<and> retenido e k)"

text \<open>
  The \<open>while self.lock_file.exists()\<close> loop of \<open>acquire_lock\<close>, from test \<open>k\<close> on:
  \<open>False\<close> with the warning shown and logged when the sentinel is there and the time
  read is greater than \<open>lock_timeout\<close>, otherwise \<open>time.sleep(1)\<close> and the next test;
  \<open>True\<close> once the sentinel is not there. Nothing in the loop bounds the number of
  tests: it ends only if the sentinel goes away or the clock passes \<open>lock_timeout\<close>, so
  the result is an option, \<open>None\<close> when the loop does not end.
\<close>

partial_function (option) esperar ::
  "entorno \<Rightarrow> int \<Rightarrow> nat \<Rightarrow> mundo \<Rightarrow> (bool \<times> mundo) option" where
  "esperar e lock_timeout k w =
     (if presente e w k then
        if transcurrido e k > of_int lock_timeout then
          Some (False, w\<lparr>pantalla := pantalla w @ [(LockTimeout, Advertencia)],
                         bitacora := bitacora w @ [(LogWarning, TimeoutLock)]\<rparr>)
        else esperar e lock_timeout (Suc k) (w\<lparr>dormido := dormido w + 1\<rparr>)
      else Some (True, w\<lparr>lock_file := None\<rparr>))"

text \<open>
  \<open>acquire_lock\<close>: after the wait, the sentinel is written; when the write raises, the
  error is logged and the result is \<open>False\<close>, and the sentinel file exists, without its
  contents, if the write had opened it.
\<close>

definition acquire_lock :: "entorno \<Rightarrow> int \<Rightarrow> mundo \<Rightarrow> (bool \<times> mundo) option" where
  "acquire_lock e lock_timeout w =
     (case esperar e lock_timeout 0 w of
        None \<Rightarrow> None
      | Some (False, w1) \<Rightarrow> Some (False, w1)
      | Some (True, w1) \<Rightarrow>
          (case write_text e of
             Escrito \<Rightarrow> Some (True, w1\<lparr>lock_file := Some Propio\<rparr>)
           | NoAbierto \<Rightarrow>
               Some (False, w1\<lparr>bitacora := bitacora w1 @ [(LogError, LockNoCreado)]\<rparr>)
           | Truncado \<Rightarrow>
               Some (False, w1\<lparr>lock_file := Some Incompleto,
                                bitacora := bitacora w1 @ [(LogError, LockNoCreado)]\<rparr>)))"

text \<open>\<open>release_lock\<close>: the sentinel is deleted if it is there; a failed deletion is logged.\<close>

definition release_lock :: "entorno \<Rightarrow> mundo \<Rightarrow> mundo" where
  "release_lock e w =
     (if lock_file w \<noteq> None then
        if unlink_ok e then w\<lparr>lock_file := None\<rparr>
        else w\<lparr>bitacora := bitacora w @ [(LogError, LockNoEliminado)]\<rparr>
      else w)"

text \<open>
  \<open>backup\<close>: nothing when the backing file does not exist; otherwise a copy, and a failed
  copy is logged. The function returns nothing in either case.
\<close>

definition backup :: "entorno \<Rightarrow> mundo \<Rightarrow> mundo" where
  "backup e w =
     (case archivo w of
        None \<Rightarrow> w
      | Some contenido \<Rightarrow>
          if copia_ok e then
            w\<lparr>respaldos := respaldos w @ [contenido],
              bitacora := bitacora w @ [(LogInfo, BackupCreado)]\<rparr>
          else w\<lparr>bitacora := bitacora w @ [(LogError, BackupFallido)]\<rparr>)"

text \<open>
  \<open>guardar\<close>: without the lock, a message and nothing else. With it: the backup when the
  file exists, the four sleeps of half a second of \<open>animacion_carga\<close>, the write
  (\<open>except\<close>: logged and shown, the file as the failed write left it), and
  \<open>release_lock\<close> in the \<open>finally\<close> clause.
\<close>

definition guardar :: "entorno \<Rightarrow> int \<Rightarrow> table \<Rightarrow> mundo \<Rightarrow> mundo option" where
  "guardar e lock_timeout df w =
     (case acquire_lock e lock_timeout w of
        None \<Rightarrow> None
      | Some (False, w1) \<Rightarrow> Some (w1\<lparr>pantalla := pantalla w1 @ [(NoLock, Error)]\<rparr>)
      | Some (True, w1) \<Rightarrow>
          let w2 = (if archivo w1 \<noteq> None then backup e w1 else w1);
              w3 = w2\<lparr>dormido := dormido w2 + 2\<rparr>;
              w4 = (case to_excel e of
                      Escrito \<Rightarrow>
                        w3\<lparr>archivo := Some (Tabla df),
                           bitacora := bitacora w3 @ [(LogInfo, ArchivoGuardado)],
                           pantalla := pantalla w3 @ [(Guardado, Exito)]\<rparr>
                    | NoAbierto \<Rightarrow>
                        w3\<lparr>bitacora := bitacora w3 @ [(LogError, ErrorAlGuardar)],
                           pantalla := pantalla w3 @ [(NoGuardado, Error)]\<rparr>
                    | Truncado \<Rightarrow>
                        w3\<lparr>archivo := Some Parcial,
                           bitacora := bitacora w3 @ [(LogError, ErrorAlGuardar)],
                           pantalla := pantalla w3 @ [(NoGuardado, Error)]\<rparr>)
          in Some (release_lock e w4))"

text \<open>
  Reading what was printed: the rows of each printed page, in the order printed; and the
  answers at the prompt between two pages that neither quit nor resize.
\<close>

primrec filas :: "'r salida \<Rightarrow> 'r list list" where
  "filas (Pagina sub i n a b t) = [sub]"
| "filas (Aviso m) = []"

definition paginas_impresas :: "'r salida list \<Rightarrow> 'r list list" where
  "paginas_impresas out = concat (map filas out)"

definition continua :: "string \<Rightarrow> bool" where
  "continua r = (lower (strip r) \<noteq> ''q'' \<and> lower (strip r) \<noteq> ''s'')"

text \<open>
  The normalization of the search, as the specification words it: lowercase, then the
  transliteration when it is available.
\<close>

definition normalizar :: "(string \<Rightarrow> string) option \<Rightarrow> string \<Rightarrow> string" where
  "normalizar unidecode s = (case unidecode of Some u \<Rightarrow> u (lower s) | None \<Rightarrow> lower s)"

section \<open>Properties of the case conversions\<close>






















section \<open>Properties of the national-ID validator\<close>












section \<open>Properties of pagination\<close>

lemma pages_nat:
  fixes n ps :: nat
  assumes "1 \<le> ps"
  shows "(int n + int ps - 1) div int ps = int ((n + ps - 1) div ps)"
proof -
  have "int n + int ps - 1 = int (n + ps - 1)" using assms by (simp add: of_nat_diff)
  then show ?thesis by (simp only: zdiv_int)
qed

lemma div_add_multiple:
  fixes m q ps :: nat
  assumes "m < ps"
  shows "(m + q * ps) div ps = q"
  using assms by simp

lemma pages_if:
  fixes n ps :: nat
  assumes "1 \<le> ps"
  shows "(n + ps - 1) div ps = (if n mod ps = 0 then n div ps else Suc (n div ps))"
proof -
  define r where "r = n mod ps"
  define q where "q = n div ps"
  have n: "n = r + q * ps" by (simp add: q_def r_def)
  have r: "r < ps" using assms by (simp add: r_def)
  show ?thesis
  proof (cases "r = 0")
    case True
    have "ps - 1 < ps" using assms by simp
    then have "((ps - 1) + q * ps) div ps = q" by (rule div_add_multiple)
    moreover have "n + ps - 1 = (ps - 1) + q * ps" using n True assms by simp
    ultimately have "(n + ps - 1) div ps = q" by (simp only:)
    then show ?thesis using True by (simp add: q_def r_def)
  next
    case False
    have "r - 1 < ps" using r by simp
    then have "((r - 1) + Suc q * ps) div ps = Suc q" by (rule div_add_multiple)
    moreover have "n + ps - 1 = (r - 1) + Suc q * ps" using n False by simp
    ultimately have "(n + ps - 1) div ps = Suc q" by (simp only:)
    then show ?thesis using False by (simp add: q_def r_def)
  qed
qed

lemma pages_ceiling:
  fixes n ps :: nat
  assumes "1 \<le> ps"
  shows "(int n + int ps - 1) div int ps = \<lceil>real n / real ps\<rceil>"
proof -
  have m: "int n mod int ps = int (n mod ps)" by (simp add: zmod_int)
  have d: "int n div int ps = int (n div ps)" by (simp add: zdiv_int)
  have "\<lceil>real n / real ps\<rceil> = - (- int n div int ps)"
    using ceiling_divide_eq_div [of "int n" "int ps"] by simp
  also have "\<dots> = (if int n mod int ps = 0 then int n div int ps else int n div int ps + 1)"
    using assms by (simp add: zdiv_zminus1_eq_if)
  also have "\<dots> = int (if n mod ps = 0 then n div ps else Suc (n div ps))"
    unfolding m d by simp
  also have "\<dots> = int ((n + ps - 1) div ps)"
    by (simp only: pages_if [OF assms])
  finally show ?thesis by (simp only: pages_nat [OF assms])
qed

lemma py_slice_nat:
  fixes a k :: nat
  shows "py_slice df (int a) (int a + int k) = take k (drop a df)"
proof (cases "a \<le> length df")
  case True
  then show ?thesis
    by (simp add: py_slice_def Let_def min_def)
next
  case False
  then show ?thesis
    by (simp add: py_slice_def Let_def min_def)
qed

lemma py_slice_page:
  fixes i ps :: nat
  shows "py_slice df (int i * int ps) (int i * int ps + int ps)
         = take ps (drop (i * ps) df)"
  using py_slice_nat [of df "i * ps" ps] by simp

lemma take_drop_nth: "take k (drop a xs) = map (nth xs) [a..<min (a + k) (length xs)]"
proof (rule nth_equalityI)
  show "length (take k (drop a xs)) = length (map (nth xs) [a..<min (a + k) (length xs)])"
    by (simp add: min_def) arith
next
  fix i assume "i < length (take k (drop a xs))"
  then have "i < k" "a + i < length xs" by auto
  then show "take k (drop a xs) ! i = map (nth xs) [a..<min (a + k) (length xs)] ! i"
    by simp
qed

lemma concat_pages:
  fixes ps :: nat
  shows "concat (map (\<lambda>i. take ps (drop (i * ps) xs)) [0..<k]) = take (k * ps) xs"
proof (induction k)
  case 0
  show ?case by simp
next
  case (Suc k)
  have "concat (map (\<lambda>i. take ps (drop (i * ps) xs)) [0..<Suc k])
      = take (k * ps) xs @ take ps (drop (k * ps) xs)"
    using Suc by simp
  also have "\<dots> = take (k * ps + ps) xs" by (simp only: take_add)
  finally show ?case by (simp add: add.commute)
qed

lemma paginar_loop_continua:
  fixes ps :: nat
  assumes "\<forall>r\<in>set ins. continua r"
    and "length (filter (\<lambda>i. i < pages - 1) idxs) \<le> length ins"
  shows "paginar_loop df idxs (int ps) pages ins out =
     (None,
      out @ map (\<lambda>i. Pagina (py_slice df (i * int ps) (i * int ps + int ps)) (i + 1) pages
                    (i * int ps + 1) (min (i * int ps + int ps) (int (length df)))
                    (int (length df))) idxs,
      drop (length (filter (\<lambda>i. i < pages - 1) idxs)) ins)"
  using assms
proof (induction idxs arbitrary: ins out)
  case Nil
  show ?case by simp
next
  case (Cons i rest)
  show ?case
  proof (cases "i < pages - 1")
    case False
    with Cons.prems have "length (filter (\<lambda>i. i < pages - 1) rest) \<le> length ins" by simp
    from Cons.IH [OF Cons.prems(1) this] False show ?thesis
      by (simp add: Let_def)
  next
    case True
    with Cons.prems(2) obtain r ins1 where ins: "ins = r # ins1"
      by (cases ins) auto
    from Cons.prems(1) ins have r: "continua r" and rest: "\<forall>r\<in>set ins1. continua r"
      by simp_all
    from Cons.prems(2) True ins
    have len: "length (filter (\<lambda>i. i < pages - 1) rest) \<le> length ins1" by simp
    from Cons.IH [OF rest len] True r show ?thesis
      by (simp add: Let_def ins continua_def)
  qed
qed

lemma filas_Pagina_map:
  "concat (map filas (map (\<lambda>i. Pagina (f i) (a i) b (c i) (d i) e) idxs)) = map f idxs"
  by (induction idxs) simp_all

lemma paginas_paginar:
  fixes df :: "'r list" and ps :: nat
  assumes "1 \<le> ps" and "\<forall>r\<in>set ins. continua r"
    and "nat \<lceil>real (length df) / real ps\<rceil> - 1 \<le> length ins"
  shows "fst (paginar df (int ps) ins) = None \<and>
         paginas_impresas (fst (snd (paginar df (int ps) ins)))
         = map (\<lambda>i. take ps (drop (i * ps) df)) [0..<nat \<lceil>real (length df) / real ps\<rceil>]"
proof (cases "df = []")
  case True
  then show ?thesis
    by (simp add: paginar_def paginas_impresas_def)
next
  case False
  define k where "k = nat \<lceil>real (length df) / real ps\<rceil>"
  have "0 \<le> real (length df) / real ps" by simp
  then have "- 1 < real (length df) / real ps" by linarith
  then have "0 \<le> \<lceil>real (length df) / real ps\<rceil>" by (simp only: zero_le_ceiling)
  then have pages: "(int (length df) + int ps - 1) div int ps = int k"
    unfolding k_def pages_ceiling [OF assms(1)] by simp
  have "filter (\<lambda>i. i < int k - 1) (map int [0..<k])
      = map int (filter (\<lambda>i. i < k - 1) [0..<k])"
    unfolding filter_map comp_def
    by (rule arg_cong [where f = "map int"], rule filter_cong) auto
  also have "filter (\<lambda>i. i < k - 1) [0..<k] = [0..<k - 1]"
    by (induction k) (auto simp: less_Suc_eq)
  finally have flt: "filter (\<lambda>i. i < int k - 1) (map int [0..<k]) = map int [0..<k - 1]" .
  have k1: "k - 1 \<le> length ins" using assms(3) by (simp add: k_def)
  have len: "length (filter (\<lambda>i. i < int k - 1) (map int [0..<k])) \<le> length ins"
    unfolding flt using k1 by simp
  have run: "paginar df (int ps) ins = paginar_loop df (map int [0..<k]) (int ps) (int k) ins []"
    using False assms(1) by (simp add: paginar_def Let_def pages)
  show ?thesis
    unfolding run paginar_loop_continua [OF assms(2) len] paginas_impresas_def
    by (simp add: filas_Pagina_map comp_def py_slice_page k_def [symmetric])
qed

lemma ceiling_pages_cover:
  fixes n ps :: nat
  assumes "1 \<le> ps"
  shows "n \<le> nat \<lceil>real n / real ps\<rceil> * ps"
proof -
  define k where "k = nat \<lceil>real n / real ps\<rceil>"
  have "real n / real ps \<le> real_of_int \<lceil>real n / real ps\<rceil>" by (rule le_of_int_ceiling)
  also have "\<dots> \<le> real k" unfolding k_def by simp
  finally have c: "real n / real ps \<le> real k" .
  have "real n = (real n / real ps) * real ps" using assms by simp
  also have "\<dots> \<le> real k * real ps" by (rule mult_right_mono [OF c]) simp
  finally have "real n \<le> real (k * ps)" by simp
  then have "n \<le> k * ps" by (simp only: of_nat_le_iff)
  then show ?thesis unfolding k_def .
qed

text \<open>
  C5: for a table of \<open>n\<close> rows and a page size \<open>ps \<ge> 1\<close>, a traversal in which the user
  continues at every prompt prints exactly \<open>ceil(n / ps)\<close> pages, page \<open>i\<close> holds the rows
  \<open>[i * ps, min((i + 1) * ps, n))\<close>, and the pages concatenated in order are the table:
  no row is lost or duplicated.
\<close>

theorem paginar_cubre:
  fixes df :: "'r list" and ps :: nat
  assumes "1 \<le> ps" and "\<forall>r\<in>set ins. continua r"
    and "nat \<lceil>real (length df) / real ps\<rceil> - 1 \<le> length ins"
  shows "fst (paginar df (int ps) ins) = None \<and>
         length (paginas_impresas (fst (snd (paginar df (int ps) ins))))
           = nat \<lceil>real (length df) / real ps\<rceil> \<and>
         paginas_impresas (fst (snd (paginar df (int ps) ins)))
           = map (\<lambda>i. map (nth df) [i * ps..<min ((i + 1) * ps) (length df)])
               [0..<nat \<lceil>real (length df) / real ps\<rceil>] \<and>
         concat (paginas_impresas (fst (snd (paginar df (int ps) ins)))) = df"
proof -
  let ?k = "nat \<lceil>real (length df) / real ps\<rceil>"
  let ?P = "paginas_impresas (fst (snd (paginar df (int ps) ins)))"
  from paginas_paginar [OF assms]
  have none: "fst (paginar df (int ps) ins) = None"
    and P: "?P = map (\<lambda>i. take ps (drop (i * ps) df)) [0..<?k]"
    by simp_all
  have len: "length ?P = ?k" unfolding P by simp
  have rng: "?P = map (\<lambda>i. map (nth df) [i * ps..<min ((i + 1) * ps) (length df)]) [0..<?k]"
    unfolding P by (rule map_cong) (simp_all add: take_drop_nth add.commute)
  have "concat ?P = take (?k * ps) df" unfolding P by (rule concat_pages)
  also have "\<dots> = df" using ceiling_pages_cover [OF assms(1), of "length df"] by simp
  finally have cat: "concat ?P = df" .
  from none len rng cat show ?thesis by blast
qed

theorem paginar_cubre_witness:
  "fst (paginar [10, 11, 12, 13, 14 :: nat] 2 ['''', '''']) = None \<and>
   paginas_impresas (fst (snd (paginar [10, 11, 12, 13, 14 :: nat] 2 ['''', ''''])))
     = [[10, 11], [12, 13], [14]]"
proof -
  have h1: "1 \<le> (2::nat)" by simp
  have h2: "\<forall>r\<in>set ['''', '''']. continua r"
    by (simp add: continua_def strip_def lower_def)
  have c: "nat \<lceil>real (length [10, 11, 12, 13, 14 :: nat]) / real (2::nat)\<rceil> = 3"
    by simp
  have h3: "nat \<lceil>real (length [10, 11, 12, 13, 14 :: nat]) / real (2::nat)\<rceil> - 1
      \<le> length ['''', '''']"
    unfolding c by simp
  from paginar_cubre [OF h1 h2 h3] show ?thesis
    unfolding c by (simp add: upt_rec)
qed

text \<open>
  C6: what the code does when the page size is changed after the first page of a table of
  five rows shown two at a time: the next page printed is the second page of the new
  size, the traversal stops after the three iterations of the first range, and the rows
  at positions 3 and 4 are never printed. The traversal does not restart from page 0.
\<close>

theorem paginar_resize_continues:
  "paginar [10, 11, 12, 13, 14 :: nat] 2 [''s'', ''1'', '''', ''''] =
     (None,
      [Pagina [10, 11] 1 3 1 2 5, Pagina [11] 2 5 2 2 5, Pagina [12] 3 5 3 3 5],
      [])"
  by code_simp

section \<open>Properties of search\<close>

lemma py_in_iff_sublist: "py_in sub s \<longleftrightarrow> sublist sub s"
proof
  assume "py_in sub s"
  then obtain i where i: "take (length sub) (drop i s) = sub"
    by (auto simp: py_in_def list_ex_iff)
  have "drop i s = take (length sub) (drop i s) @ drop (length sub) (drop i s)"
    by (simp only: append_take_drop_id)
  then have "s = take i s @ take (length sub) (drop i s) @ drop (length sub) (drop i s)"
    by (metis append_take_drop_id)
  with i have "s = take i s @ sub @ drop (length sub) (drop i s)" by simp
  then show "sublist sub s" unfolding sublist_def by blast
next
  assume "sublist sub s"
  then obtain ps ss where s: "s = ps @ sub @ ss" unfolding sublist_def by blast
  then have "length ps < Suc (length s)" "take (length sub) (drop (length ps) s) = sub"
    by simp_all
  then show "py_in sub s"
    unfolding py_in_def list_ex_iff by (metis atLeast0LessThan lessThan_iff set_upt)
qed

lemma filter_by_mask: "map fst (filter snd (zip xs (map P xs))) = filter P xs"
  by (induction xs) simp_all

lemma buscar_rows:
  "rows (buscar unidecode df q) =
     filter (\<lambda>r. \<exists>c\<in>set (columns df).
               sublist (normalizar unidecode (strip q)) (normalizar unidecode (r c)))
       (rows df)"
proof -
  have "rows (buscar unidecode df q) =
      filter (\<lambda>r. list_ex (\<lambda>c. py_in (normalizar unidecode (strip q)) (normalizar unidecode (r c)))
         (columns df)) (rows df)"
    by (cases unidecode) (simp_all add: buscar_def Let_def normalizar_def filter_by_mask)
  then show ?thesis by (simp add: list_ex_iff py_in_iff_sublist)
qed

lemma buscar_columns:
  "columns (buscar unidecode df q) = (if rows df = [] then [] else columns df)"
  by (simp add: buscar_def Let_def)

text \<open>
  C4, as the code has it: \<open>buscar\<close> returns exactly the rows of which at least one
  column, lowercased (and transliterated when that is available), contains the query
  trimmed of surrounding whitespace, lowercased (and transliterated); the rows returned
  are in their order in the table; and when the query so normalized is empty and the table
  has a column, every row is returned.
\<close>

theorem buscar_spec:
  "rows (buscar unidecode df q) =
     filter (\<lambda>r. \<exists>c\<in>set (columns df).
               sublist (normalizar unidecode (strip q)) (normalizar unidecode (r c)))
       (rows df) \<and>
   subseq (rows (buscar unidecode df q)) (rows df) \<and>
   (normalizar unidecode (strip q) = [] \<and> columns df \<noteq> []
      \<longrightarrow> rows (buscar unidecode df q) = rows df)"
proof (intro conjI impI)
  show "rows (buscar unidecode df q) =
     filter (\<lambda>r. \<exists>c\<in>set (columns df).
               sublist (normalizar unidecode (strip q)) (normalizar unidecode (r c)))
       (rows df)"
    by (rule buscar_rows)
  show "subseq (rows (buscar unidecode df q)) (rows df)"
    unfolding buscar_rows by simp
  assume e: "normalizar unidecode (strip q) = [] \<and> columns df \<noteq> []"
  then have "\<And>r. \<exists>c\<in>set (columns df).
      sublist (normalizar unidecode (strip q)) (normalizar unidecode (r c))"
    by (cases "columns df") auto
  then show "rows (buscar unidecode df q) = rows df"
    unfolding buscar_rows by simp
qed

theorem buscar_spec_witness:
  "rows (buscar None \<lparr>columns = [''A''], rows = [\<lambda>c. ''x'', \<lambda>c. ''y'']\<rparr> ''  '')
     = [\<lambda>c. ''x'', \<lambda>c. ''y'']
   \<and> map (\<lambda>r. r ''A'')
        (rows (buscar None \<lparr>columns = [''A''], rows = [\<lambda>c. ''e'', \<lambda>c. [CHR 0xE9], \<lambda>c. ''E'']\<rparr>
           [CHR 0xC9]))
     = [[CHR 0xE9]]"
proof (intro conjI)
  show "rows (buscar None \<lparr>columns = [''A''], rows = [\<lambda>c. ''x'', \<lambda>c. ''y'']\<rparr> ''  '')
     = [\<lambda>c. ''x'', \<lambda>c. ''y'']"
    using buscar_spec [of None "\<lparr>columns = [''A''], rows = [\<lambda>c. ''x'', \<lambda>c. ''y'']\<rparr>" "''  ''"]
    by (simp add: normalizar_def strip_def lower_def is_space_def)
  show "map (\<lambda>r. r ''A'')
        (rows (buscar None \<lparr>columns = [''A''], rows = [\<lambda>c. ''e'', \<lambda>c. [CHR 0xE9], \<lambda>c. ''E'']\<rparr>
           [CHR 0xC9]))
     = [[CHR 0xE9]]"
    by code_simp
qed

text \<open>
  The query is trimmed and the cells are not: the query \<open>" a"\<close> finds the cell \<open>"a"\<close>,
  although \<open>" a"\<close> lowercased is not contained in \<open>"a"\<close> lowercased. And in a table
  without columns no row matches, the empty query included.
\<close>

theorem buscar_query_stripped_counterexample:
  "rows (buscar None \<lparr>columns = [''A''], rows = [\<lambda>c. ''a'']\<rparr> '' a'') = [\<lambda>c. ''a'']
   \<and> \<not> sublist (lower '' a'') (lower ''a'')
   \<and> rows (buscar None \<lparr>columns = [], rows = [\<lambda>c. ''a'']\<rparr> '''') = []"
proof (intro conjI)
  show "rows (buscar None \<lparr>columns = [''A''], rows = [\<lambda>c. ''a'']\<rparr> '' a'') = [\<lambda>c. ''a'']"
    by (simp add: buscar_def Let_def strip_def lower_def lower_char_def is_space_def py_in_def)
  show "\<not> sublist (lower '' a'') (lower ''a'')"
    using sublist_length_le [of "lower '' a''" "lower ''a''"] by (auto simp: lower_def)
  show "rows (buscar None \<lparr>columns = [], rows = [\<lambda>c. ''a'']\<rparr> '''') = []"
    by (simp add: buscar_def Let_def)
qed

section \<open>Properties of the key lookup\<close>

























section \<open>Properties of the update\<close>

lemma format_rut_nonempty: "v \<noteq> [] \<Longrightarrow> format_rut v \<noteq> []"
  by (simp add: format_rut_def Let_def)

lemma poner_nth:
  "poner df idx col v ! i =
     (if i = idx \<and> idx < length df then (df ! idx)(col := v) else df ! i)"
proof (cases "idx < length df")
  case True
  then show ?thesis by (simp add: poner_def nth_list_update)
next
  case False
  then have "df[idx := (df ! idx)(col := v)] = df" by (simp add: list_update_beyond)
  with False show ?thesis by (simp add: poner_def)
qed

lemma poner_other:
  "i \<noteq> idx \<or> c \<noteq> col \<Longrightarrow> (poner df idx col v ! i) c = (df ! i) c"
  by (auto simp: poner_nth)

lemma poner_cell:
  "idx < length df \<Longrightarrow> (poner df idx col v ! idx) col = v"
  by (simp add: poner_nth)

lemma poner_same_or_value:
  "(poner df idx col v ! i) c = (df ! i) c \<or> (poner df idx col v ! i) c = v"
  by (simp add: poner_nth)

lemma poner_length: "length (poner df idx col v) = length df"
  by (simp add: poner_def)

lemma actualizar_celda_vacio:
  "strip r = [] \<Longrightarrow> actualizar_celda g idx col r st = st"
  by (simp add: actualizar_celda_def)

lemma actualizar_celda_forms:
  "actualizar_celda g idx col r st = st
   \<or> (\<exists>t. actualizar_celda g idx col r st = (fst st, snd st @ [(t, Advertencia)]))
   \<or> (\<exists>v. v \<noteq> [] \<and> actualizar_celda g idx col r st = (poner (fst st) idx col v, snd st))"
proof (cases "strip r = []")
  case True
  then show ?thesis by (simp add: actualizar_celda_vacio)
next
  case False
  then have f: "format_rut (strip r) \<noteq> []" by (rule format_rut_nonempty)
  show ?thesis
    unfolding actualizar_celda_def Let_def
    using False f by (simp del: ex_simps) blast
qed

lemma actualizar_celda_rol:
  assumes "strip r \<noteq> []"
  shows "case rol_de g col of
           None \<Rightarrow> actualizar_celda g idx col r (df, ms) = (poner df idx col (strip r), ms)
         | Some ro \<Rightarrow>
             if valida ro (strip r)
             then actualizar_celda g idx col r (df, ms)
                    = (poner df idx col (valor_guardado (Some ro) (strip r)), ms)
             else actualizar_celda g idx col r (df, ms)
                    = (df, ms @ [(se_mantiene ro, Advertencia)])"
proof (cases "truthy (col_rut g) \<and> Some col = col_rut g")
  case True
  with assms show ?thesis
    by (simp add: rol_de_def actualizar_celda_def Let_def valor_guardado_def; blast?)
next
  case rut: False
  show ?thesis
  proof (cases "truthy (col_email g) \<and> Some col = col_email g")
    case True
    with assms rut show ?thesis
      by (simp add: rol_de_def actualizar_celda_def Let_def valor_guardado_def; blast?)
  next
    case email: False
    show ?thesis
    proof (cases "truthy (col_tel g) \<and> Some col = col_tel g")
      case True
      with assms rut email show ?thesis
        by (simp add: rol_de_def actualizar_celda_def Let_def valor_guardado_def; blast?)
    next
      case False
      with assms rut email show ?thesis
        by (simp add: rol_de_def actualizar_celda_def Let_def valor_guardado_def; blast?)
    qed
  qed
qed

text \<open>
  C7, as the code has it: for an answer that is not empty once trimmed, the validator
  consulted for a column is that of the first role, in the order ID, email, phone, bound
  to it. When the answer fails it, the table is unchanged and a warning is shown; when it
  passes, or when no role is bound to the column, the cell is replaced by the answer
  (formatted by \<open>format_rut\<close> for the ID role); in each case the loop goes on with the
  next column. Replacing a cell sets that cell and no other.
\<close>

theorem actualizar_celda_politica:
  assumes "strip r \<noteq> []"
  shows "(case rol_de g col of
           None \<Rightarrow> actualizar_celda g idx col r (df, ms) = (poner df idx col (strip r), ms)
         | Some ro \<Rightarrow>
             if valida ro (strip r)
             then actualizar_celda g idx col r (df, ms)
                    = (poner df idx col (valor_guardado (Some ro) (strip r)), ms)
             else actualizar_celda g idx col r (df, ms)
                    = (df, ms @ [(se_mantiene ro, Advertencia)]))
        \<and> actualizar_cols g idx (col # cols) (r # ins) (df, ms)
            = actualizar_cols g idx cols ins (actualizar_celda g idx col r (df, ms))
        \<and> (idx < length df \<longrightarrow> (poner df idx col v ! idx) col = v)
        \<and> (i \<noteq> idx \<or> c \<noteq> col \<longrightarrow> (poner df idx col v ! i) c = (df ! i) c)
        \<and> length (poner df idx col v) = length df"
proof (intro conjI impI)
  show "case rol_de g col of
           None \<Rightarrow> actualizar_celda g idx col r (df, ms) = (poner df idx col (strip r), ms)
         | Some ro \<Rightarrow>
             if valida ro (strip r)
             then actualizar_celda g idx col r (df, ms)
                    = (poner df idx col (valor_guardado (Some ro) (strip r)), ms)
             else actualizar_celda g idx col r (df, ms)
                    = (df, ms @ [(se_mantiene ro, Advertencia)])"
    by (rule actualizar_celda_rol [OF assms])
  show "actualizar_cols g idx (col # cols) (r # ins) (df, ms)
            = actualizar_cols g idx cols ins (actualizar_celda g idx col r (df, ms))"
    by simp
  show "length (poner df idx col v) = length df" by (rule poner_length)
next
  assume "idx < length df"
  then show "(poner df idx col v ! idx) col = v" by (rule poner_cell)
next
  assume "i \<noteq> idx \<or> c \<noteq> col"
  then show "(poner df idx col v ! i) c = (df ! i) c" by (rule poner_other)
qed

theorem actualizar_celda_politica_witness:
  "actualizar_celda \<lparr>columnas = [''RUT''], col_rut = Some ''RUT'', col_email = None,
                     col_tel = None\<rparr> 0 ''RUT'' ''1-9'' ([\<lambda>c. ''12345678-5''], [])
     = ([\<lambda>c. ''12345678-5''], [(RutSeMantiene, Advertencia)])"
proof -
  let ?g = "\<lparr>columnas = [''RUT''], col_rut = Some ''RUT'', col_email = None, col_tel = None\<rparr>"
  have s: "strip ''1-9'' = ''1-9''" by code_simp
  then have h: "strip ''1-9'' \<noteq> []" by simp
  have ro: "rol_de ?g ''RUT'' = Some RolID" by (simp add: rol_de_def truthy_def)
  have inv: "\<not> valida RolID (strip ''1-9'')" unfolding s valida.simps by code_simp
  note t = actualizar_celda_politica [OF h, where g = ?g and col = "''RUT''" and idx = 0
      and df = "[\<lambda>c. ''12345678-5'']" and ms = "[]", THEN conjunct1]
  from t inv show ?thesis unfolding ro by simp
qed

text \<open>
  One column bound to two roles: the column \<open>RUT\<close> carries the ID role and the email
  role. The answer \<open>12345678-5\<close> fails the email validator, and the cell is replaced all
  the same, with no message: only the validator of the ID role is consulted.
\<close>

theorem actualizar_dos_roles_counterexample:
  "truthy (col_email \<lparr>columnas = [''RUT''], col_rut = Some ''RUT'', col_email = Some ''RUT'',
                      col_tel = None\<rparr>)
   \<and> \<not> validar_email ''12345678-5''
   \<and> (fst (actualizar_celda \<lparr>columnas = [''RUT''], col_rut = Some ''RUT'',
                              col_email = Some ''RUT'', col_tel = None\<rparr>
              0 ''RUT'' ''12345678-5'' ([\<lambda>c. ''11111111-1''], [])) ! 0) ''RUT''
       = ''12345678-5''
   \<and> snd (actualizar_celda \<lparr>columnas = [''RUT''], col_rut = Some ''RUT'',
                              col_email = Some ''RUT'', col_tel = None\<rparr>
              0 ''RUT'' ''12345678-5'' ([\<lambda>c. ''11111111-1''], [])) = []"
  by code_simp

lemma actualizar_celda_cell:
  "(fst (actualizar_celda g idx col r st) ! i) c = (fst st ! i) c
   \<or> (fst (actualizar_celda g idx col r st) ! i) c \<noteq> []"
proof -
  from actualizar_celda_forms [of g idx col r st]
  consider "actualizar_celda g idx col r st = st"
    | t where "actualizar_celda g idx col r st = (fst st, snd st @ [(t, Advertencia)])"
    | v where "v \<noteq> []" "actualizar_celda g idx col r st = (poner (fst st) idx col v, snd st)"
    by blast
  then show ?thesis
  proof cases
    case 1
    then show ?thesis by simp
  next
    case 2
    then show ?thesis by simp
  next
    case 3
    with poner_same_or_value [of "fst st" idx col v i c] show ?thesis by auto
  qed
qed

lemma actualizar_celda_other:
  assumes "i \<noteq> idx \<or> c \<noteq> col"
  shows "(fst (actualizar_celda g idx col r st) ! i) c = (fst st ! i) c"
proof -
  from actualizar_celda_forms [of g idx col r st]
  consider "actualizar_celda g idx col r st = st"
    | t where "actualizar_celda g idx col r st = (fst st, snd st @ [(t, Advertencia)])"
    | v where "v \<noteq> []" "actualizar_celda g idx col r st = (poner (fst st) idx col v, snd st)"
    by blast
  then show ?thesis
  proof cases
    case 1
    then show ?thesis by simp
  next
    case 2
    then show ?thesis by simp
  next
    case 3
    with poner_other [OF assms, of "fst st" v] show ?thesis by simp
  qed
qed

lemma actualizar_cols_cell:
  "(fst (fst (snd (actualizar_cols g idx cols ins st))) ! i) c = (fst st ! i) c
   \<or> (fst (fst (snd (actualizar_cols g idx cols ins st))) ! i) c \<noteq> []"
proof (induction g idx cols ins st rule: actualizar_cols.induct)
  case (1 g idx ins st)
  show ?case by simp
next
  case (2 g idx col cols st)
  show ?case by simp
next
  case (3 g idx col cols r ins st)
  from "3.IH" actualizar_celda_cell [of g idx col r st i c]
  show ?case by auto
qed

lemma actualizar_cols_untouched:
  assumes "\<forall>(col, r)\<in>set (zip cols ins). col = c \<longrightarrow> strip r = []"
  shows "(fst (fst (snd (actualizar_cols g idx cols ins st))) ! i) c = (fst st ! i) c"
  using assms
proof (induction g idx cols ins st rule: actualizar_cols.induct)
  case (1 g idx ins st)
  show ?case by simp
next
  case (2 g idx col cols st)
  show ?case by simp
next
  case (3 g idx col cols r ins st)
  from "3.prems" have rest: "\<forall>(col, r)\<in>set (zip cols ins). col = c \<longrightarrow> strip r = []"
    and here: "col = c \<longrightarrow> strip r = []"
    by simp_all
  have "(fst (actualizar_celda g idx col r st) ! i) c = (fst st ! i) c"
  proof (cases "col = c")
    case True
    with here have "strip r = []" by simp
    then show ?thesis by (simp add: actualizar_celda_vacio)
  next
    case False
    then show ?thesis by (intro actualizar_celda_other) simp
  qed
  with "3.IH" [OF rest] show ?case by simp
qed

text \<open>
  C10: in the update loop, an answer that is empty (once trimmed) leaves the table and the
  messages as they were; whatever the answers, a cell of the table afterwards holds its
  previous value or a value that is not the empty string, and an answer for one column
  touches no cell of another column or of another row; and a column whose every answer
  was empty has all its cells untouched at the end of the loop.
\<close>

theorem actualizar_vacio_conserva:
  "(strip r = [] \<longrightarrow> actualizar_celda g idx col r st = st)
   \<and> ((fst (actualizar_celda g idx col r st) ! i) c = (fst st ! i) c
        \<or> (fst (actualizar_celda g idx col r st) ! i) c \<noteq> [])
   \<and> (i \<noteq> idx \<or> c \<noteq> col \<longrightarrow>
        (fst (actualizar_celda g idx col r st) ! i) c = (fst st ! i) c)
   \<and> ((fst (fst (snd (actualizar_cols g idx cols ins st))) ! i) c = (fst st ! i) c
        \<or> (fst (fst (snd (actualizar_cols g idx cols ins st))) ! i) c \<noteq> [])
   \<and> ((\<forall>(col, r)\<in>set (zip cols ins). col = c \<longrightarrow> strip r = []) \<longrightarrow>
        (fst (fst (snd (actualizar_cols g idx cols ins st))) ! i) c = (fst st ! i) c)"
proof (intro conjI impI)
  assume "strip r = []"
  then show "actualizar_celda g idx col r st = st" by (rule actualizar_celda_vacio)
next
  show "(fst (actualizar_celda g idx col r st) ! i) c = (fst st ! i) c
        \<or> (fst (actualizar_celda g idx col r st) ! i) c \<noteq> []"
    by (rule actualizar_celda_cell)
next
  assume "i \<noteq> idx \<or> c \<noteq> col"
  then show "(fst (actualizar_celda g idx col r st) ! i) c = (fst st ! i) c"
    by (rule actualizar_celda_other)
next
  show "(fst (fst (snd (actualizar_cols g idx cols ins st))) ! i) c = (fst st ! i) c
        \<or> (fst (fst (snd (actualizar_cols g idx cols ins st))) ! i) c \<noteq> []"
    by (rule actualizar_cols_cell)
next
  assume "\<forall>(col, r)\<in>set (zip cols ins). col = c \<longrightarrow> strip r = []"
  then show "(fst (fst (snd (actualizar_cols g idx cols ins st))) ! i) c = (fst st ! i) c"
    by (rule actualizar_cols_untouched)
qed

theorem actualizar_vacio_conserva_witness:
  "actualizar_celda \<lparr>columnas = [''RUT'', ''NOMBRE''], col_rut = Some ''RUT'', col_email = None,
                     col_tel = None\<rparr> 0 ''RUT'' ''  '' ([\<lambda>c. ''12345678-5''], [])
     = ([\<lambda>c. ''12345678-5''], [])
   \<and> (fst (fst (snd (actualizar_cols \<lparr>columnas = [''RUT'', ''NOMBRE''], col_rut = Some ''RUT'',
                                        col_email = None, col_tel = None\<rparr> 0
          [''RUT'', ''NOMBRE''] ['' '', ''Eva''] ([\<lambda>c. ''12345678-5''], [])))) ! 0) ''RUT''
       = (fst ([\<lambda>c. ''12345678-5''], [] :: mensaje list) ! 0) ''RUT''"
proof (intro conjI)
  let ?g = "\<lparr>columnas = [''RUT'', ''NOMBRE''], col_rut = Some ''RUT'', col_email = None,
             col_tel = None\<rparr>"
  let ?st = "([\<lambda>c. ''12345678-5''], []) :: row list \<times> mensaje list"
  have e: "strip ''  '' = []" by code_simp
  note t1 = actualizar_vacio_conserva [where r = "''  ''" and g = ?g and idx = 0
      and col = "''RUT''" and st = ?st, THEN conjunct1]
  show "actualizar_celda ?g 0 ''RUT'' ''  '' ?st = ?st"
    by (rule mp [OF t1 e])
  have e1: "strip '' '' = []" by code_simp
  have h: "\<forall>(col, r)\<in>set (zip [''RUT'', ''NOMBRE''] ['' '', ''Eva'']).
      col = ''RUT'' \<longrightarrow> strip r = []"
    using e1 by simp
  note t2 = actualizar_vacio_conserva [where g = ?g and idx = 0 and cols = "[''RUT'', ''NOMBRE'']"
      and ins = "['' '', ''Eva'']" and st = ?st and c = "''RUT''" and i = 0,
      THEN conjunct2, THEN conjunct2, THEN conjunct2, THEN conjunct2]
  show "(fst (fst (snd (actualizar_cols ?g 0 [''RUT'', ''NOMBRE''] ['' '', ''Eva''] ?st))) ! 0) ''RUT''
       = (fst ?st ! 0) ''RUT''"
    by (rule mp [OF t2 h])
qed

section \<open>Properties of the lock and the save\<close>

lemma esperar_ausente:
  "\<not> presente e w k \<Longrightarrow> esperar e t k w = Some (True, w\<lparr>lock_file := None\<rparr>)"
  by (subst esperar.simps) simp

lemma esperar_timeout:
  "presente e w k \<Longrightarrow> of_int t < transcurrido e k \<Longrightarrow>
   esperar e t k w =
     Some (False, w\<lparr>pantalla := pantalla w @ [(LockTimeout, Advertencia)],
                    bitacora := bitacora w @ [(LogWarning, TimeoutLock)]\<rparr>)"
  by (subst esperar.simps) simp

lemma esperar_sleep:
  "presente e w k \<Longrightarrow> transcurrido e k \<le> of_int t \<Longrightarrow>
   esperar e t k w = esperar e t (Suc k) (w\<lparr>dormido := dormido w + 1\<rparr>)"
  by (subst esperar.simps) simp

lemma presente_dormido: "presente e (w\<lparr>dormido := d\<rparr>) k = presente e w k"
  by (simp add: presente_def)

lemma esperar_avanza:
  "(\<forall>j<n. presente e w (k + j) \<and> transcurrido e (k + j) \<le> of_int t) \<Longrightarrow>
   esperar e t k w = esperar e t (k + n) (w\<lparr>dormido := dormido w + n\<rparr>)"
proof (induction n arbitrary: k w)
  case 0
  then show ?case by simp
next
  case (Suc n)
  from Suc.prems have here: "presente e w k" "transcurrido e k \<le> of_int t"
    by force+
  have later: "\<forall>j<n. presente e (w\<lparr>dormido := dormido w + 1\<rparr>) (Suc k + j)
      \<and> transcurrido e (Suc k + j) \<le> of_int t"
  proof (intro allI impI)
    fix j assume "j < n"
    then have "Suc j < Suc n" by simp
    with Suc.prems have "presente e w (k + Suc j) \<and> transcurrido e (k + Suc j) \<le> of_int t"
      by blast
    then show "presente e (w\<lparr>dormido := dormido w + 1\<rparr>) (Suc k + j)
      \<and> transcurrido e (Suc k + j) \<le> of_int t"
      by (simp add: presente_dormido)
  qed
  have "esperar e t k w = esperar e t (Suc k) (w\<lparr>dormido := dormido w + 1\<rparr>)"
    using here by (rule esperar_sleep)
  also have "\<dots> = esperar e t (Suc k + n)
      (w\<lparr>dormido := dormido w + 1\<rparr>\<lparr>dormido := dormido (w\<lparr>dormido := dormido w + 1\<rparr>) + n\<rparr>)"
    using later by (rule Suc.IH)
  also have "\<dots> = esperar e t (k + Suc n) (w\<lparr>dormido := dormido w + Suc n\<rparr>)"
    by simp
  finally show ?case .
qed

lemma esperar_liberado:
  assumes "\<forall>j<n. presente e w j \<and> transcurrido e j \<le> of_int t" "\<not> presente e w n"
  shows "esperar e t 0 w = Some (True, w\<lparr>dormido := dormido w + n, lock_file := None\<rparr>)"
proof -
  have "esperar e t 0 w = esperar e t n (w\<lparr>dormido := dormido w + n\<rparr>)"
    using esperar_avanza [of n e w 0 t] assms(1) by simp
  also have "\<dots> = Some (True, w\<lparr>dormido := dormido w + n, lock_file := None\<rparr>)"
    using assms(2) by (simp add: esperar_ausente presente_dormido)
  finally show ?thesis .
qed

lemma esperar_desiste:
  assumes "\<forall>j<n. presente e w j \<and> transcurrido e j \<le> of_int t"
    "presente e w n" "of_int t < transcurrido e n"
  shows "esperar e t 0 w =
     Some (False, w\<lparr>dormido := dormido w + n,
                    pantalla := pantalla w @ [(LockTimeout, Advertencia)],
                    bitacora := bitacora w @ [(LogWarning, TimeoutLock)]\<rparr>)"
proof -
  have "esperar e t 0 w = esperar e t n (w\<lparr>dormido := dormido w + n\<rparr>)"
    using esperar_avanza [of n e w 0 t] assms(1) by simp
  also have "\<dots> = Some (False, w\<lparr>dormido := dormido w + n,
                    pantalla := pantalla w @ [(LockTimeout, Advertencia)],
                    bitacora := bitacora w @ [(LogWarning, TimeoutLock)]\<rparr>)"
    using assms(2,3) by (simp add: esperar_timeout presente_dormido)
  finally show ?thesis .
qed

text \<open>
  The loop ends at the first test that finds the sentinel gone or the time read greater
  than \<open>lock_timeout\<close>; there is such a test among the tests \<open>0\<close> to \<open>N\<close> as soon as
  test \<open>N\<close> is one.
\<close>

lemma esperar_termina:
  assumes "presente e w N \<longrightarrow> of_int t < transcurrido e N"
  shows "\<exists>n b w1. n \<le> N \<and> esperar e t 0 w = Some (b, w1) \<and> dormido w1 = dormido w + n
    \<and> archivo w1 = archivo w \<and> respaldos w1 = respaldos w
    \<and> (if b then lock_file w1 = None
        else lock_file w1 = lock_file w \<and> presente e w n
          \<and> bitacora w1 = bitacora w @ [(LogWarning, TimeoutLock)])"
proof -
  define fin where "fin j = (\<not> presente e w j \<or> of_int t < transcurrido e j)" for j
  define n where "n = (LEAST j. fin j)"
  have "fin N" using assms by (auto simp: fin_def)
  then have n: "fin n" "n \<le> N" unfolding n_def by (auto intro: LeastI Least_le)
  have before: "\<forall>j<n. presente e w j \<and> transcurrido e j \<le> of_int t"
  proof (intro allI impI)
    fix j assume "j < n"
    then have "\<not> fin j" unfolding n_def by (rule not_less_Least)
    then show "presente e w j \<and> transcurrido e j \<le> of_int t" by (auto simp: fin_def)
  qed
  show ?thesis
  proof (cases "presente e w n")
    case False
    from esperar_liberado [OF before False] n(2) show ?thesis by force
  next
    case True
    with n(1) have "of_int t < transcurrido e n" by (simp add: fin_def)
    from esperar_desiste [OF before True this] n(2) True show ?thesis by force
  qed
qed

lemma esperar_campos:
  assumes "esperar e t k w = Some y"
  shows "archivo (snd y) = archivo w \<and> respaldos (snd y) = respaldos w
   \<and> (if fst y then lock_file (snd y) = None \<and> bitacora (snd y) = bitacora w
       else lock_file (snd y) = lock_file w \<and> lock_file w \<noteq> None
         \<and> bitacora (snd y) = bitacora w @ [(LogWarning, TimeoutLock)])"
  using assms
proof (induction e t k w y rule: esperar.raw_induct)
  case (1 esp e lock_timeout k w y)
  show ?case
  proof (cases "presente e w k")
    case False
    with 1(2) show ?thesis by auto
  next
    case True
    show ?thesis
    proof (cases "of_int lock_timeout < transcurrido e k")
      case True
      with \<open>presente e w k\<close> 1(2) show ?thesis by (auto simp: presente_def)
    next
      case False
      with \<open>presente e w k\<close> 1(2)
      have a: "esp e lock_timeout (Suc k) (w\<lparr>dormido := dormido w + 1\<rparr>) = Some y" by simp
      from False \<open>presente e w k\<close> 1(3)
      have b: "esperar e lock_timeout (Suc k) (w\<lparr>dormido := dormido w + 1\<rparr>) = Some y"
        by (simp add: esperar_sleep)
      from 1(1) [OF a b] show ?thesis by (cases "fst y") simp_all
    qed
  qed
qed (rule assms)

lemma acquire_lock_de_esperar_True:
  assumes "esperar e t 0 w = Some (True, w1)"
  shows "acquire_lock e t w =
     (case write_text e of
        Escrito \<Rightarrow> Some (True, w1\<lparr>lock_file := Some Propio\<rparr>)
      | NoAbierto \<Rightarrow>
          Some (False, w1\<lparr>bitacora := bitacora w1 @ [(LogError, LockNoCreado)]\<rparr>)
      | Truncado \<Rightarrow>
          Some (False, w1\<lparr>lock_file := Some Incompleto,
                           bitacora := bitacora w1 @ [(LogError, LockNoCreado)]\<rparr>))"
  using assms by (simp add: acquire_lock_def)

lemma acquire_lock_de_esperar_False:
  assumes "esperar e t 0 w = Some (False, w1)"
  shows "acquire_lock e t w = Some (False, w1)"
  using assms by (simp add: acquire_lock_def)

lemma acquire_lock_liberado:
  assumes "\<forall>j<n. presente e w j \<and> transcurrido e j \<le> of_int t" "\<not> presente e w n"
  shows "acquire_lock e t w =
     Some (case write_text e of
        Escrito \<Rightarrow> (True, w\<lparr>dormido := dormido w + n, lock_file := Some Propio\<rparr>)
      | NoAbierto \<Rightarrow>
          (False, w\<lparr>dormido := dormido w + n, lock_file := None,
                    bitacora := bitacora w @ [(LogError, LockNoCreado)]\<rparr>)
      | Truncado \<Rightarrow>
          (False, w\<lparr>dormido := dormido w + n, lock_file := Some Incompleto,
                    bitacora := bitacora w @ [(LogError, LockNoCreado)]\<rparr>))"
  unfolding acquire_lock_de_esperar_True [OF esperar_liberado [OF assms]]
  by (cases "write_text e") simp_all

lemma acquire_lock_desiste:
  assumes "\<forall>j<n. presente e w j \<and> transcurrido e j \<le> of_int t"
    "presente e w n" "of_int t < transcurrido e n"
  shows "acquire_lock e t w =
     Some (False, w\<lparr>dormido := dormido w + n,
                    pantalla := pantalla w @ [(LockTimeout, Advertencia)],
                    bitacora := bitacora w @ [(LogWarning, TimeoutLock)]\<rparr>)"
  by (rule acquire_lock_de_esperar_False [OF esperar_desiste [OF assms]])

lemma acquire_lock_termina:
  assumes "presente e w N \<longrightarrow> of_int t < transcurrido e N"
  shows "\<exists>b w1. acquire_lock e t w = Some (b, w1) \<and> dormido w1 \<le> dormido w + N"
proof -
  from esperar_termina [OF assms] obtain n b w1 where
    r: "n \<le> N" "esperar e t 0 w = Some (b, w1)" "dormido w1 = dormido w + n"
    by blast
  show ?thesis
  proof (cases b)
    case False
    with r have "acquire_lock e t w = Some (False, w1)"
      by (simp add: acquire_lock_de_esperar_False)
    with r show ?thesis by auto
  next
    case True
    with r have e: "esperar e t 0 w = Some (True, w1)" by simp
    show ?thesis
      unfolding acquire_lock_de_esperar_True [OF e] using r
      by (cases "write_text e") auto
  qed
qed

lemma acquire_lock_campos:
  assumes "acquire_lock e t w = Some (b, w1)"
  shows "archivo w1 = archivo w \<and> respaldos w1 = respaldos w"
proof (cases "esperar e t 0 w")
  case None
  with assms show ?thesis by (simp add: acquire_lock_def)
next
  case (Some y)
  obtain b0 w0 where y: "y = (b0, w0)" by (cases y)
  from esperar_campos [OF Some] y
  have f: "archivo w0 = archivo w" "respaldos w0 = respaldos w" by simp_all
  show ?thesis
  proof (cases b0)
    case False
    with Some y assms f show ?thesis by (simp add: acquire_lock_def)
  next
    case True
    with Some y assms f show ?thesis
      by (cases "write_text e") (auto simp: acquire_lock_def)
  qed
qed

lemma acquire_lock_True:
  assumes "acquire_lock e t w = Some (True, w1)"
  shows "lock_file w1 = Some Propio"
proof (cases "esperar e t 0 w")
  case None
  with assms show ?thesis by (simp add: acquire_lock_def)
next
  case (Some y)
  obtain b0 w0 where y: "y = (b0, w0)" by (cases y)
  show ?thesis
  proof (cases b0)
    case False
    with Some y assms show ?thesis by (simp add: acquire_lock_def)
  next
    case True
    with Some y assms show ?thesis
      by (cases "write_text e") (auto simp: acquire_lock_def)
  qed
qed

lemma acquire_lock_False:
  assumes "acquire_lock e t w = Some (False, w1)"
  shows "(lock_file w1 = lock_file w \<and> (\<exists>c. lock_file w = Some c)
            \<and> bitacora w1 = bitacora w @ [(LogWarning, TimeoutLock)])
         \<or> (write_text e = NoAbierto \<and> lock_file w1 = None
            \<and> bitacora w1 = bitacora w @ [(LogError, LockNoCreado)])
         \<or> (write_text e = Truncado \<and> lock_file w1 = Some Incompleto
            \<and> bitacora w1 = bitacora w @ [(LogError, LockNoCreado)])"
proof (cases "esperar e t 0 w")
  case None
  with assms show ?thesis by (simp add: acquire_lock_def)
next
  case (Some y)
  obtain b0 w0 where y: "y = (b0, w0)" by (cases y)
  show ?thesis
  proof (cases b0)
    case False
    with Some y assms have "w1 = w0" by (simp add: acquire_lock_def)
    with esperar_campos [OF Some] y False show ?thesis by auto
  next
    case True
    with esperar_campos [OF Some] y
    have f: "lock_file w0 = None" "bitacora w0 = bitacora w" by simp_all
    from True Some y assms f show ?thesis
      by (cases "write_text e") (auto simp: acquire_lock_def)
  qed
qed

lemma guardar_sin_lock:
  assumes "acquire_lock e t w = Some (False, w1)"
  shows "guardar e t df w = Some (w1\<lparr>pantalla := pantalla w1 @ [(NoLock, Error)]\<rparr>)"
  using assms by (simp add: guardar_def)

lemma guardar_con_lock:
  assumes "acquire_lock e t w = Some (True, w1)"
  shows "guardar e t df w =
     Some (release_lock e
       (let w2 = (if archivo w1 \<noteq> None then backup e w1 else w1);
            w3 = w2\<lparr>dormido := dormido w2 + 2\<rparr>
        in case to_excel e of
             Escrito \<Rightarrow>
               w3\<lparr>archivo := Some (Tabla df),
                  bitacora := bitacora w3 @ [(LogInfo, ArchivoGuardado)],
                  pantalla := pantalla w3 @ [(Guardado, Exito)]\<rparr>
           | NoAbierto \<Rightarrow>
               w3\<lparr>bitacora := bitacora w3 @ [(LogError, ErrorAlGuardar)],
                  pantalla := pantalla w3 @ [(NoGuardado, Error)]\<rparr>
           | Truncado \<Rightarrow>
               w3\<lparr>archivo := Some Parcial,
                  bitacora := bitacora w3 @ [(LogError, ErrorAlGuardar)],
                  pantalla := pantalla w3 @ [(NoGuardado, Error)]\<rparr>))"
  using assms by (simp add: guardar_def Let_def)

lemma backup_lock_file: "lock_file (backup e w) = lock_file w"
  by (simp add: backup_def split: option.splits)

lemma guardar_w4_lock:
  assumes "acquire_lock e t w = Some (True, w1)"
  shows "\<exists>w4. guardar e t df w = Some (release_lock e w4) \<and> lock_file w4 = Some Propio"
proof -
  define w2 where "w2 = (if archivo w1 \<noteq> None then backup e w1 else w1)"
  define w3 where "w3 = w2\<lparr>dormido := dormido w2 + 2\<rparr>"
  define w4 where "w4 = (case to_excel e of
             Escrito \<Rightarrow>
               w3\<lparr>archivo := Some (Tabla df),
                  bitacora := bitacora w3 @ [(LogInfo, ArchivoGuardado)],
                  pantalla := pantalla w3 @ [(Guardado, Exito)]\<rparr>
           | NoAbierto \<Rightarrow>
               w3\<lparr>bitacora := bitacora w3 @ [(LogError, ErrorAlGuardar)],
                  pantalla := pantalla w3 @ [(NoGuardado, Error)]\<rparr>
           | Truncado \<Rightarrow>
               w3\<lparr>archivo := Some Parcial,
                  bitacora := bitacora w3 @ [(LogError, ErrorAlGuardar)],
                  pantalla := pantalla w3 @ [(NoGuardado, Error)]\<rparr>)"
  have g: "guardar e t df w = Some (release_lock e w4)"
    unfolding guardar_con_lock [OF assms] Let_def w4_def w3_def w2_def ..
  have "lock_file w2 = lock_file w1" by (simp add: w2_def backup_lock_file)
  then have "lock_file w4 = lock_file w1"
    by (cases "to_excel e") (simp_all add: w4_def w3_def)
  with acquire_lock_True [OF assms] g show ?thesis by auto
qed

lemma reloj_pasa: "(of_int t :: real) < real (nat (t + 1))"
  by (cases "0 \<le> t + 1") simp_all

lemma reloj_llega: "(of_int t :: real) \<le> real (nat t)"
  by (cases "0 \<le> t") simp_all

text \<open>
  C8, as the code has it. When the first test finds no sentinel, \<open>acquire_lock\<close> sleeps
  not at all and tries to write the sentinel: \<open>True\<close> with the sentinel written when the
  write succeeds, \<open>False\<close> with the error logged when it raises (and then the sentinel
  file exists, incomplete, if the write had opened it). When the tests \<open>0\<close> to \<open>n - 1\<close>
  find the sentinel and a time not greater than \<open>lock_timeout\<close>, each is followed by a
  sleep of one second; if test \<open>n\<close> finds the sentinel gone, it goes on after these \<open>n\<close>
  sleeps as if there had been none; if test \<open>n\<close> finds the sentinel and a time greater
  than \<open>lock_timeout\<close>, the result is \<open>False\<close>, with the warning shown and logged and
  the sentinel as it was. If \<open>k\<close> sleeps take at least \<open>k\<close> seconds the function
  returns after at most \<open>lock_timeout + 1\<close> sleeps, and after at most \<open>lock_timeout\<close>
  sleeps if they take more than \<open>k\<close> seconds. When the result is \<open>False\<close>, \<open>guardar\<close>
  only adds a message: the backing file and the backups are as they were.
\<close>

theorem acquire_lock_casos:
  "(\<not> presente e w 0 \<longrightarrow>
      acquire_lock e t w =
        Some (case write_text e of
                Escrito \<Rightarrow> (True, w\<lparr>lock_file := Some Propio\<rparr>)
              | NoAbierto \<Rightarrow>
                  (False, w\<lparr>lock_file := None,
                            bitacora := bitacora w @ [(LogError, LockNoCreado)]\<rparr>)
              | Truncado \<Rightarrow>
                  (False, w\<lparr>lock_file := Some Incompleto,
                            bitacora := bitacora w @ [(LogError, LockNoCreado)]\<rparr>)))
   \<and> ((\<forall>j<n. presente e w j \<and> transcurrido e j \<le> of_int t) \<and> \<not> presente e w n \<longrightarrow>
      acquire_lock e t w =
        Some (case write_text e of
                Escrito \<Rightarrow> (True, w\<lparr>dormido := dormido w + n, lock_file := Some Propio\<rparr>)
              | NoAbierto \<Rightarrow>
                  (False, w\<lparr>dormido := dormido w + n, lock_file := None,
                            bitacora := bitacora w @ [(LogError, LockNoCreado)]\<rparr>)
              | Truncado \<Rightarrow>
                  (False, w\<lparr>dormido := dormido w + n, lock_file := Some Incompleto,
                            bitacora := bitacora w @ [(LogError, LockNoCreado)]\<rparr>)))
   \<and> ((\<forall>j<n. presente e w j \<and> transcurrido e j \<le> of_int t) \<and> presente e w n
        \<and> of_int t < transcurrido e n \<longrightarrow>
      acquire_lock e t w =
        Some (False, w\<lparr>dormido := dormido w + n,
                       pantalla := pantalla w @ [(LockTimeout, Advertencia)],
                       bitacora := bitacora w @ [(LogWarning, TimeoutLock)]\<rparr>))
   \<and> ((\<forall>k. real k \<le> transcurrido e k) \<longrightarrow>
      (\<exists>b w'. acquire_lock e t w = Some (b, w') \<and> dormido w' \<le> dormido w + nat (t + 1)))
   \<and> ((\<forall>k. real k < transcurrido e k) \<longrightarrow>
      (\<exists>b w'. acquire_lock e t w = Some (b, w') \<and> dormido w' \<le> dormido w + nat t))
   \<and> (acquire_lock e t w = Some (False, w1) \<longrightarrow>
      guardar e t df w = Some (w1\<lparr>pantalla := pantalla w1 @ [(NoLock, Error)]\<rparr>)
      \<and> archivo w1 = archivo w \<and> respaldos w1 = respaldos w)"
proof (intro conjI impI)
  assume a: "\<not> presente e w 0"
  have "\<forall>j<0. presente e w j \<and> transcurrido e j \<le> of_int t" by simp
  from acquire_lock_liberado [OF this a]
  show "acquire_lock e t w =
        Some (case write_text e of
                Escrito \<Rightarrow> (True, w\<lparr>lock_file := Some Propio\<rparr>)
              | NoAbierto \<Rightarrow>
                  (False, w\<lparr>lock_file := None,
                            bitacora := bitacora w @ [(LogError, LockNoCreado)]\<rparr>)
              | Truncado \<Rightarrow>
                  (False, w\<lparr>lock_file := Some Incompleto,
                            bitacora := bitacora w @ [(LogError, LockNoCreado)]\<rparr>))"
    by (cases "write_text e") simp_all
next
  assume "(\<forall>j<n. presente e w j \<and> transcurrido e j \<le> of_int t) \<and> \<not> presente e w n"
  then show "acquire_lock e t w =
        Some (case write_text e of
                Escrito \<Rightarrow> (True, w\<lparr>dormido := dormido w + n, lock_file := Some Propio\<rparr>)
              | NoAbierto \<Rightarrow>
                  (False, w\<lparr>dormido := dormido w + n, lock_file := None,
                            bitacora := bitacora w @ [(LogError, LockNoCreado)]\<rparr>)
              | Truncado \<Rightarrow>
                  (False, w\<lparr>dormido := dormido w + n, lock_file := Some Incompleto,
                            bitacora := bitacora w @ [(LogError, LockNoCreado)]\<rparr>))"
    using acquire_lock_liberado [of n e w t] by blast
next
  assume "(\<forall>j<n. presente e w j \<and> transcurrido e j \<le> of_int t) \<and> presente e w n
        \<and> of_int t < transcurrido e n"
  then show "acquire_lock e t w =
        Some (False, w\<lparr>dormido := dormido w + n,
                       pantalla := pantalla w @ [(LockTimeout, Advertencia)],
                       bitacora := bitacora w @ [(LogWarning, TimeoutLock)]\<rparr>)"
    using acquire_lock_desiste [of n e w t] by blast
next
  assume "\<forall>k. real k \<le> transcurrido e k"
  then have "real (nat (t + 1)) \<le> transcurrido e (nat (t + 1))" by blast
  with reloj_pasa [of t] have "of_int t < transcurrido e (nat (t + 1))" by linarith
  then show "\<exists>b w'. acquire_lock e t w = Some (b, w') \<and> dormido w' \<le> dormido w + nat (t + 1)"
    by (intro acquire_lock_termina) simp
next
  assume "\<forall>k. real k < transcurrido e k"
  then have "real (nat t) < transcurrido e (nat t)" by blast
  with reloj_llega [of t] have "of_int t < transcurrido e (nat t)" by linarith
  then show "\<exists>b w'. acquire_lock e t w = Some (b, w') \<and> dormido w' \<le> dormido w + nat t"
    by (intro acquire_lock_termina) simp
next
  assume f: "acquire_lock e t w = Some (False, w1)"
  show "guardar e t df w = Some (w1\<lparr>pantalla := pantalla w1 @ [(NoLock, Error)]\<rparr>)"
    by (rule guardar_sin_lock [OF f])
  from acquire_lock_campos [OF f]
  show "archivo w1 = archivo w" and "respaldos w1 = respaldos w"
    by simp_all
qed

theorem acquire_lock_casos_witness:
  "acquire_lock \<lparr>liberado_en = None, transcurrido = (\<lambda>k. real k + 1 / 4),
                  write_text = Escrito, copia_ok = True, to_excel = Escrito,
                  unlink_ok = True\<rparr> 300
     \<lparr>archivo = None, lock_file = None, respaldos = [], dormido = 0, bitacora = [],
      pantalla = []\<rparr>
   = Some (True, \<lparr>archivo = None, lock_file = Some Propio, respaldos = [], dormido = 0,
                  bitacora = [], pantalla = []\<rparr>)
   \<and> acquire_lock \<lparr>liberado_en = Some 2, transcurrido = (\<lambda>k. real k + 1 / 4),
                  write_text = Escrito, copia_ok = True, to_excel = Escrito,
                  unlink_ok = True\<rparr> 300
     \<lparr>archivo = None, lock_file = Some Ajeno, respaldos = [], dormido = 0, bitacora = [],
      pantalla = []\<rparr>
   = Some (True, \<lparr>archivo = None, lock_file = Some Propio, respaldos = [], dormido = 2,
                  bitacora = [], pantalla = []\<rparr>)
   \<and> acquire_lock \<lparr>liberado_en = None, transcurrido = (\<lambda>k. real k + 1 / 4),
                  write_text = Escrito, copia_ok = True, to_excel = Escrito,
                  unlink_ok = True\<rparr> 2
     \<lparr>archivo = None, lock_file = Some Ajeno, respaldos = [], dormido = 0, bitacora = [],
      pantalla = []\<rparr>
   = Some (False, \<lparr>archivo = None, lock_file = Some Ajeno, respaldos = [], dormido = 2,
                   bitacora = [(LogWarning, TimeoutLock)],
                   pantalla = [(LockTimeout, Advertencia)]\<rparr>)
   \<and> acquire_lock \<lparr>liberado_en = None, transcurrido = (\<lambda>k. real k + 1 / 4),
                  write_text = Escrito, copia_ok = True, to_excel = Escrito,
                  unlink_ok = True\<rparr> 0
     \<lparr>archivo = None, lock_file = Some Ajeno, respaldos = [], dormido = 0, bitacora = [],
      pantalla = []\<rparr>
   = Some (False, \<lparr>archivo = None, lock_file = Some Ajeno, respaldos = [], dormido = 0,
                   bitacora = [(LogWarning, TimeoutLock)],
                   pantalla = [(LockTimeout, Advertencia)]\<rparr>)
   \<and> (\<exists>b w'. acquire_lock \<lparr>liberado_en = None, transcurrido = real,
                  write_text = Escrito, copia_ok = True, to_excel = Escrito,
                  unlink_ok = True\<rparr> 2
          \<lparr>archivo = None, lock_file = Some Ajeno, respaldos = [], dormido = 0, bitacora = [],
           pantalla = []\<rparr> = Some (b, w') \<and> dormido w' \<le> 3)
   \<and> (\<exists>b w'. acquire_lock \<lparr>liberado_en = None, transcurrido = (\<lambda>k. real k + 1 / 4),
                  write_text = Escrito, copia_ok = True, to_excel = Escrito,
                  unlink_ok = True\<rparr> 2
          \<lparr>archivo = None, lock_file = Some Ajeno, respaldos = [], dormido = 0, bitacora = [],
           pantalla = []\<rparr> = Some (b, w') \<and> dormido w' \<le> 2)
   \<and> guardar \<lparr>liberado_en = None, transcurrido = (\<lambda>k. real k + 1 / 4),
                  write_text = Escrito, copia_ok = True, to_excel = Escrito,
                  unlink_ok = True\<rparr> 0 \<lparr>columns = [''A''], rows = []\<rparr>
     \<lparr>archivo = None, lock_file = Some Ajeno, respaldos = [], dormido = 0, bitacora = [],
      pantalla = []\<rparr>
   = Some \<lparr>archivo = None, lock_file = Some Ajeno, respaldos = [], dormido = 0,
           bitacora = [(LogWarning, TimeoutLock)],
           pantalla = [(LockTimeout, Advertencia), (NoLock, Error)]\<rparr>"
proof (intro conjI)
  let ?libre = "\<lparr>archivo = None, lock_file = None, respaldos = [], dormido = 0, bitacora = [],
      pantalla = []\<rparr>"
  let ?w = "\<lparr>archivo = None, lock_file = Some Ajeno, respaldos = [], dormido = 0,
      bitacora = [], pantalla = []\<rparr>"
  let ?nunca = "\<lparr>liberado_en = None, transcurrido = (\<lambda>k. real k + 1 / 4),
                  write_text = Escrito, copia_ok = True, to_excel = Escrito,
                  unlink_ok = True\<rparr>"
  let ?dos = "\<lparr>liberado_en = Some 2, transcurrido = (\<lambda>k. real k + 1 / 4),
                  write_text = Escrito, copia_ok = True, to_excel = Escrito,
                  unlink_ok = True\<rparr>"
  let ?justo = "\<lparr>liberado_en = None, transcurrido = real,
                  write_text = Escrito, copia_ok = True, to_excel = Escrito,
                  unlink_ok = True\<rparr>"
  have h1: "\<not> presente ?nunca ?libre 0" by (simp add: presente_def)
  note t1 = acquire_lock_casos [where e = ?nunca and w = ?libre and t = 300, THEN conjunct1]
  from mp [OF t1 h1]
  show "acquire_lock ?nunca 300 ?libre
    = Some (True, \<lparr>archivo = None, lock_file = Some Propio, respaldos = [], dormido = 0,
                  bitacora = [], pantalla = []\<rparr>)"
    by simp
  have h2: "(\<forall>j<2. presente ?dos ?w j \<and> transcurrido ?dos j \<le> of_int 300)
      \<and> \<not> presente ?dos ?w 2"
    by (simp add: presente_def retenido_def)
  note t2 = acquire_lock_casos [where e = ?dos and w = ?w and t = 300 and n = 2,
      THEN conjunct2, THEN conjunct1]
  from mp [OF t2 h2]
  show "acquire_lock ?dos 300 ?w
    = Some (True, \<lparr>archivo = None, lock_file = Some Propio, respaldos = [], dormido = 2,
                  bitacora = [], pantalla = []\<rparr>)"
    by simp
  have h3: "(\<forall>j<2. presente ?nunca ?w j \<and> transcurrido ?nunca j \<le> of_int 2)
      \<and> presente ?nunca ?w 2 \<and> of_int 2 < transcurrido ?nunca 2"
    by (simp add: presente_def retenido_def)
  note t3 = acquire_lock_casos [where e = ?nunca and w = ?w and t = 2 and n = 2,
      THEN conjunct2, THEN conjunct2, THEN conjunct1]
  from mp [OF t3 h3]
  show "acquire_lock ?nunca 2 ?w
    = Some (False, \<lparr>archivo = None, lock_file = Some Ajeno, respaldos = [], dormido = 2,
                   bitacora = [(LogWarning, TimeoutLock)],
                   pantalla = [(LockTimeout, Advertencia)]\<rparr>)"
    by simp
  have h4: "(\<forall>j<0. presente ?nunca ?w j \<and> transcurrido ?nunca j \<le> of_int 0)
      \<and> presente ?nunca ?w 0 \<and> of_int 0 < transcurrido ?nunca 0"
    by (simp add: presente_def retenido_def)
  note t4 = acquire_lock_casos [where e = ?nunca and w = ?w and t = 0 and n = 0,
      THEN conjunct2, THEN conjunct2, THEN conjunct1]
  from mp [OF t4 h4]
  show a0: "acquire_lock ?nunca 0 ?w
    = Some (False, \<lparr>archivo = None, lock_file = Some Ajeno, respaldos = [], dormido = 0,
                   bitacora = [(LogWarning, TimeoutLock)],
                   pantalla = [(LockTimeout, Advertencia)]\<rparr>)"
    by simp
  have h5: "\<forall>k. real k \<le> transcurrido ?justo k" by simp
  note t5 = acquire_lock_casos [where e = ?justo and w = ?w and t = 2,
      THEN conjunct2, THEN conjunct2, THEN conjunct2, THEN conjunct1]
  from mp [OF t5 h5]
  show "\<exists>b w'. acquire_lock ?justo 2 ?w = Some (b, w') \<and> dormido w' \<le> 3"
    by simp
  have h6: "\<forall>k. real k < transcurrido ?nunca k" by simp
  note t6 = acquire_lock_casos [where e = ?nunca and w = ?w and t = 2,
      THEN conjunct2, THEN conjunct2, THEN conjunct2, THEN conjunct2, THEN conjunct1]
  from mp [OF t6 h6]
  show "\<exists>b w'. acquire_lock ?nunca 2 ?w = Some (b, w') \<and> dormido w' \<le> 2"
    by (simp add: numeral_2_eq_2)
  note t7 = acquire_lock_casos [where e = ?nunca and w = ?w and t = 0
      and df = "\<lparr>columns = [''A''], rows = []\<rparr>",
      THEN conjunct2, THEN conjunct2, THEN conjunct2, THEN conjunct2, THEN conjunct2]
  from mp [OF t7 a0, THEN conjunct1]
  show "guardar ?nunca 0 \<lparr>columns = [''A''], rows = []\<rparr> ?w
    = Some \<lparr>archivo = None, lock_file = Some Ajeno, respaldos = [], dormido = 0,
           bitacora = [(LogWarning, TimeoutLock)],
           pantalla = [(LockTimeout, Advertencia), (NoLock, Error)]\<rparr>"
    by simp
qed

text \<open>
  With no sentinel present and a sentinel file that cannot be opened for writing,
  \<open>acquire_lock\<close> returns \<open>False\<close>, with the error logged and no sentinel created.
\<close>

theorem acquire_lock_no_escribible_counterexample:
  "\<not> presente \<lparr>liberado_en = None, transcurrido = (\<lambda>k. real k + 1 / 4),
                 write_text = NoAbierto, copia_ok = True, to_excel = Escrito,
                 unlink_ok = True\<rparr>
        \<lparr>archivo = None, lock_file = None, respaldos = [], dormido = 0, bitacora = [],
         pantalla = []\<rparr> 0
   \<and> acquire_lock \<lparr>liberado_en = None, transcurrido = (\<lambda>k. real k + 1 / 4),
                 write_text = NoAbierto, copia_ok = True, to_excel = Escrito,
                 unlink_ok = True\<rparr> 300
        \<lparr>archivo = None, lock_file = None, respaldos = [], dormido = 0, bitacora = [],
         pantalla = []\<rparr>
     = Some (False, \<lparr>archivo = None, lock_file = None, respaldos = [], dormido = 0,
                     bitacora = [(LogError, LockNoCreado)], pantalla = []\<rparr>)"
  by (simp add: presente_def acquire_lock_def esperar.simps)

text \<open>
  C9, as the code has it. When \<open>acquire_lock\<close> returned \<open>True\<close>, the sentinel is the one
  it wrote, and on every path of \<open>guardar\<close>, whether the write of the backing file
  succeeds or raises, \<open>release_lock\<close> runs last: when the deletion succeeds the sentinel
  is gone; when the deletion fails the sentinel is still there and the failure is the last
  line logged. When \<open>acquire_lock\<close> returned \<open>False\<close>, \<open>guardar\<close> removes nothing and
  logs nothing: after a timeout the sentinel that was there is still there; after a write
  of the sentinel that raised, there is no sentinel if the write had not opened the file,
  and there is an incomplete sentinel, which stays, if it had.
\<close>

theorem guardar_libera:
  "(acquire_lock e t w = Some (True, w1) \<longrightarrow> lock_file w1 = Some Propio)
   \<and> (acquire_lock e t w = Some (True, w1) \<and> unlink_ok e \<longrightarrow>
        (\<exists>w'. guardar e t df w = Some w' \<and> lock_file w' = None))
   \<and> (acquire_lock e t w = Some (True, w1) \<and> \<not> unlink_ok e \<longrightarrow>
        (\<exists>w'. guardar e t df w = Some w' \<and> lock_file w' = Some Propio
           \<and> last (bitacora w') = (LogError, LockNoEliminado)))
   \<and> (acquire_lock e t w = Some (False, w1) \<longrightarrow>
        (\<exists>w'. guardar e t df w = Some w' \<and> lock_file w' = lock_file w1
           \<and> bitacora w' = bitacora w1)
        \<and> ((lock_file w1 = lock_file w \<and> (\<exists>c. lock_file w = Some c)
               \<and> bitacora w1 = bitacora w @ [(LogWarning, TimeoutLock)])
            \<or> (write_text e = NoAbierto \<and> lock_file w1 = None
               \<and> bitacora w1 = bitacora w @ [(LogError, LockNoCreado)])
            \<or> (write_text e = Truncado \<and> lock_file w1 = Some Incompleto
               \<and> bitacora w1 = bitacora w @ [(LogError, LockNoCreado)])))"
proof (intro conjI impI)
  assume "acquire_lock e t w = Some (True, w1)"
  then show "lock_file w1 = Some Propio" by (rule acquire_lock_True)
next
  assume a: "acquire_lock e t w = Some (True, w1) \<and> unlink_ok e"
  then obtain w4 where "guardar e t df w = Some (release_lock e w4)" "lock_file w4 = Some Propio"
    using guardar_w4_lock [of e t w w1 df] by blast
  with a show "\<exists>w'. guardar e t df w = Some w' \<and> lock_file w' = None"
    by (simp add: release_lock_def)
next
  assume a: "acquire_lock e t w = Some (True, w1) \<and> \<not> unlink_ok e"
  then obtain w4 where "guardar e t df w = Some (release_lock e w4)" "lock_file w4 = Some Propio"
    using guardar_w4_lock [of e t w w1 df] by blast
  with a show "\<exists>w'. guardar e t df w = Some w' \<and> lock_file w' = Some Propio
           \<and> last (bitacora w') = (LogError, LockNoEliminado)"
    by (simp add: release_lock_def)
next
  assume f: "acquire_lock e t w = Some (False, w1)"
  show "\<exists>w'. guardar e t df w = Some w' \<and> lock_file w' = lock_file w1
           \<and> bitacora w' = bitacora w1"
    unfolding guardar_sin_lock [OF f] by simp
  show "(lock_file w1 = lock_file w \<and> (\<exists>c. lock_file w = Some c)
               \<and> bitacora w1 = bitacora w @ [(LogWarning, TimeoutLock)])
            \<or> (write_text e = NoAbierto \<and> lock_file w1 = None
               \<and> bitacora w1 = bitacora w @ [(LogError, LockNoCreado)])
            \<or> (write_text e = Truncado \<and> lock_file w1 = Some Incompleto
               \<and> bitacora w1 = bitacora w @ [(LogError, LockNoCreado)])"
    by (rule acquire_lock_False [OF f])
qed

theorem guardar_libera_witness:
  "(\<exists>w'. guardar \<lparr>liberado_en = None, transcurrido = (\<lambda>k. real k + 1 / 4),
                   write_text = Escrito, copia_ok = True, to_excel = Truncado,
                   unlink_ok = True\<rparr> 300 \<lparr>columns = [''A''], rows = []\<rparr>
            \<lparr>archivo = None, lock_file = None, respaldos = [], dormido = 0, bitacora = [],
             pantalla = []\<rparr> = Some w'
          \<and> lock_file w' = None)
   \<and> (\<exists>w'. guardar \<lparr>liberado_en = None, transcurrido = (\<lambda>k. real k + 1 / 4),
                   write_text = Escrito, copia_ok = True, to_excel = Escrito,
                   unlink_ok = False\<rparr> 300 \<lparr>columns = [''A''], rows = []\<rparr>
            \<lparr>archivo = None, lock_file = None, respaldos = [], dormido = 0, bitacora = [],
             pantalla = []\<rparr> = Some w'
          \<and> lock_file w' = Some Propio
          \<and> last (bitacora w') = (LogError, LockNoEliminado))
   \<and> (\<exists>w'. guardar \<lparr>liberado_en = None, transcurrido = (\<lambda>k. real k + 1 / 4),
                   write_text = Truncado, copia_ok = True, to_excel = Escrito,
                   unlink_ok = True\<rparr> 300 \<lparr>columns = [''A''], rows = []\<rparr>
            \<lparr>archivo = None, lock_file = None, respaldos = [], dormido = 0, bitacora = [],
             pantalla = []\<rparr> = Some w'
          \<and> lock_file w' = Some Incompleto
          \<and> bitacora w' = [(LogError, LockNoCreado)])"
proof (intro conjI)
  let ?w = "\<lparr>archivo = None, lock_file = None, respaldos = [], dormido = 0, bitacora = [],
             pantalla = []\<rparr>"
  let ?df = "\<lparr>columns = [''A''], rows = []\<rparr>"
  let ?e1 = "\<lparr>liberado_en = None, transcurrido = (\<lambda>k. real k + 1 / 4),
                   write_text = Escrito, copia_ok = True, to_excel = Truncado,
                   unlink_ok = True\<rparr>"
  let ?e2 = "\<lparr>liberado_en = None, transcurrido = (\<lambda>k. real k + 1 / 4),
                   write_text = Escrito, copia_ok = True, to_excel = Escrito,
                   unlink_ok = False\<rparr>"
  let ?e3 = "\<lparr>liberado_en = None, transcurrido = (\<lambda>k. real k + 1 / 4),
                   write_text = Truncado, copia_ok = True, to_excel = Escrito,
                   unlink_ok = True\<rparr>"
  have h1: "acquire_lock ?e1 300 ?w = Some (True, ?w\<lparr>lock_file := Some Propio\<rparr>)
      \<and> unlink_ok ?e1"
    by (simp add: acquire_lock_def esperar.simps presente_def)
  note t1 = guardar_libera [where e = ?e1 and t = 300 and w = ?w and df = ?df
      and ?w1.0 = "?w\<lparr>lock_file := Some Propio\<rparr>", THEN conjunct2, THEN conjunct1]
  from mp [OF t1 h1]
  show "\<exists>w'. guardar ?e1 300 ?df ?w = Some w' \<and> lock_file w' = None" .
  have h2: "acquire_lock ?e2 300 ?w = Some (True, ?w\<lparr>lock_file := Some Propio\<rparr>)
      \<and> \<not> unlink_ok ?e2"
    by (simp add: acquire_lock_def esperar.simps presente_def)
  note t2 = guardar_libera [where e = ?e2 and t = 300 and w = ?w and df = ?df
      and ?w1.0 = "?w\<lparr>lock_file := Some Propio\<rparr>",
      THEN conjunct2, THEN conjunct2, THEN conjunct1]
  from mp [OF t2 h2]
  show "\<exists>w'. guardar ?e2 300 ?df ?w = Some w' \<and> lock_file w' = Some Propio
          \<and> last (bitacora w') = (LogError, LockNoEliminado)" .
  have h3: "acquire_lock ?e3 300 ?w
      = Some (False, ?w\<lparr>lock_file := Some Incompleto,
                         bitacora := [(LogError, LockNoCreado)]\<rparr>)"
    by (simp add: acquire_lock_def esperar.simps presente_def)
  note t3 = guardar_libera [where e = ?e3 and t = 300 and w = ?w and df = ?df
      and ?w1.0 = "?w\<lparr>lock_file := Some Incompleto, bitacora := [(LogError, LockNoCreado)]\<rparr>",
      THEN conjunct2, THEN conjunct2, THEN conjunct2]
  from mp [OF t3 h3, THEN conjunct1]
  show "\<exists>w'. guardar ?e3 300 ?df ?w = Some w' \<and> lock_file w' = Some Incompleto
          \<and> bitacora w' = [(LogError, LockNoCreado)]"
    by simp
qed

text \<open>
  The sentinel is created, the write succeeds, and the deletion of the sentinel fails:
  \<open>guardar\<close> returns with the sentinel still in place.
\<close>

theorem guardar_unlink_falla_counterexample:
  "acquire_lock \<lparr>liberado_en = None, transcurrido = (\<lambda>k. real k + 1 / 4),
                  write_text = Escrito, copia_ok = True, to_excel = Escrito,
                  unlink_ok = False\<rparr> 300
     \<lparr>archivo = None, lock_file = None, respaldos = [], dormido = 0, bitacora = [],
      pantalla = []\<rparr>
   = Some (True, \<lparr>archivo = None, lock_file = Some Propio, respaldos = [], dormido = 0,
                  bitacora = [], pantalla = []\<rparr>)
   \<and> guardar \<lparr>liberado_en = None, transcurrido = (\<lambda>k. real k + 1 / 4),
               write_text = Escrito, copia_ok = True, to_excel = Escrito,
               unlink_ok = False\<rparr> 300 \<lparr>columns = [''A''], rows = []\<rparr>
        \<lparr>archivo = None, lock_file = None, respaldos = [], dormido = 0, bitacora = [],
         pantalla = []\<rparr>
     = Some \<lparr>archivo = Some (Tabla \<lparr>columns = [''A''], rows = []\<rparr>),
             lock_file = Some Propio, respaldos = [], dormido = 2,
             bitacora = [(LogInfo, ArchivoGuardado), (LogError, LockNoEliminado)],
             pantalla = [(Guardado, Exito)]\<rparr>"
  by (simp add: guardar_def acquire_lock_def esperar.simps presente_def release_lock_def)




end
